theory Spec2Isabelle
  imports Complex_Main
begin

section \<open>The rPPG pipeline of r\_ppg\_focus\_monitor\_web\_on\_device.jsx\<close>

text \<open>
  The source computes with JavaScript numbers (IEEE doubles). They are modelled as
  \<^typ>\<open>real\<close>: rounding error, overflow and infinities are outside the model. The two
  non-numbers the source produces on purpose are written out: \<open>NaN\<close> (returned by
  \<open>computeRMSSD\<close>, and the value of \<open>0/0\<close> over an empty window) and \<open>null\<close>
  (React state that has not been set) are both \<open>None\<close> of an option type.
  Array indices and lengths are \<^typ>\<open>nat\<close> or \<^typ>\<open>int\<close>.
\<close>

subsection \<open>IIR biquads (source lines 635--658)\<close>

datatype filter_type = LP | HP

text \<open>
  The object returned by \<open>biquad\<close>: the five normalised coefficients, which the closure
  holds as constants, and the four history variables \<open>x1, x2, y1, y2\<close> of the closure,
  which \<open>biquad\<close> initialises to 0 (line 656).
\<close>

record biquad_filter =
  bz0 :: real
  bz1 :: real
  bz2 :: real
  az1 :: real
  az2 :: real
  x1 :: real
  x2 :: real
  y1 :: real
  y2 :: real

definition biquad :: "real \<Rightarrow> real \<Rightarrow> real \<Rightarrow> filter_type \<Rightarrow> biquad_filter" where
  "biquad fs fc Q type =
    (let w0 = 2 * pi * fc / fs;
         cosw0 = cos w0;
         sinw0 = sin w0;
         alpha = sinw0 / (2 * Q);
         (b0, b1, b2, a0, a1, a2) =
           (case type of
              LP \<Rightarrow> ((1 - cosw0) / 2, 1 - cosw0, (1 - cosw0) / 2,
                     1 + alpha, - 2 * cosw0, 1 - alpha)
            | HP \<Rightarrow> ((1 + cosw0) / 2, - (1 + cosw0), (1 + cosw0) / 2,
                     1 + alpha, - 2 * cosw0, 1 - alpha))
     in \<lparr> bz0 = b0 / a0, bz1 = b1 / a0, bz2 = b2 / a0, az1 = a1 / a0, az2 = a2 / a0,
          x1 = 0, x2 = 0, y1 = 0, y2 = 0 \<rparr>)"

text \<open>\<open>Math.SQRT1_2\<close> is the square root of one half.\<close>

definition makeBiquadLP :: "real \<Rightarrow> real \<Rightarrow> biquad_filter" where
  "makeBiquadLP fs fc = biquad fs fc (sqrt (1 / 2)) LP"

definition makeBiquadHP :: "real \<Rightarrow> real \<Rightarrow> biquad_filter" where
  "makeBiquadHP fs fc = biquad fs fc (sqrt (1 / 2)) HP"

text \<open>The method \<open>step\<close> of the filter object: the output and the filter with its
  history advanced.\<close>

definition step :: "biquad_filter \<Rightarrow> real \<Rightarrow> real \<times> biquad_filter" where
  "step f x =
    (let y = bz0 f * x + bz1 f * x1 f + bz2 f * x2 f - az1 f * y1 f - az2 f * y2 f
     in (y, f\<lparr> x2 := x1 f, x1 := x, y2 := y1 f, y1 := y \<rparr>))"

subsection \<open>State\<close>

text \<open>
  The object behind \<open>stRef\<close> (lines 47--68), without the camera stream, the face
  detector and the region of interest, which the signal pipeline never reads.
\<close>

record pipeline =
  lastTs :: real
  fpsEMA :: real
  t :: "real list"
  gRaw :: "real list"
  bvp :: "real list"
  maxBufSec :: real
  hp :: biquad_filter
  lp :: biquad_filter
  lastPeakT :: real
  ibis :: "real list"

definition initialState :: pipeline where
  "initialState =
    \<lparr> lastTs = 0, fpsEMA = 30, t = [], gRaw = [], bvp = [], maxBufSec = 60,
      hp = makeBiquadHP 30 0.7, lp = makeBiquadLP 30 3.0,
      lastPeakT = - 1, ibis = [] \<rparr>"

text \<open>
  The React state the pipeline reads and sets (lines 24--35): each is a number or
  \<open>null\<close>. A call of a setter is an update of the field; a setter that is not called
  leaves the field as it was.
\<close>

record display =
  hrBpm :: "real option"
  rmssd :: "real option"
  focusScore :: "real option"
  snr :: "real option"
  baselineHR :: "real option"
  baselineRMSSD :: "real option"

definition initialDisplay :: display where
  "initialDisplay =
    \<lparr> hrBpm = None, rmssd = None, focusScore = None, snr = None,
      baselineHR = None, baselineRMSSD = None \<rparr>"

subsection \<open>Processing helpers (lines 519--567)\<close>

text \<open>\<open>win\<close> is \<open>Math.max(5, Math.floor(fs))\<close>, a positive integer.\<close>

definition movingAverageTail :: "real list \<Rightarrow> nat \<Rightarrow> real" where
  "movingAverageTail arr win =
    (if length arr = 0 then 0
     else let n = min win (length arr);
              s = foldl (\<lambda>s v. s + v) 0 (drop (length arr - n) arr)
          in s / real n)"

text \<open>
  The backward scan of \<open>getLatestSegment\<close>: \<open>scanBack ts c n\<close> visits the indices
  \<open>n - 1, ..., 0\<close> and returns \<open>i + 1\<close> for the first \<open>i\<close> with \<open>ts[i] < c\<close>, and the
  initial \<open>i0 = 0\<close> when there is none.
\<close>

fun scanBack :: "real list \<Rightarrow> real \<Rightarrow> nat \<Rightarrow> nat" where
  "scanBack ts c 0 = 0"
| "scanBack ts c (Suc i) = (if ts ! i < c then Suc i else scanBack ts c i)"

text \<open>
  When \<open>i0\<close> is past the end (possible only for a negative window), \<open>t[i0]\<close> is
  \<open>undefined\<close>, \<open>dt\<close> is \<open>NaN\<close>, the test \<open>dt > 0\<close> fails and \<open>fsUsed\<close> is 30.
\<close>

definition getLatestSegment :: "real list \<Rightarrow> real list \<Rightarrow> real \<Rightarrow> real list \<times> real" where
  "getLatestSegment sig ts windowSec =
    (if length sig = 0 \<or> length ts = 0 then ([], 30)
     else let tmax = ts ! (length ts - 1);
              i0 = scanBack ts (tmax - windowSec) (length ts);
              segment = drop i0 sig
          in if i0 < length ts
             then let dt = (ts ! (length ts - 1) - ts ! i0)
                             / max 1 (real (length ts - 1 - i0));
                      fsUsed = (if dt > 0 then min 90 (max 10 (1 / dt)) else 30)
                  in (segment, fsUsed)
             else (segment, 30))"

text \<open>One bin of the Goertzel recurrence: the pair \<open>(s_prev, s_prev2)\<close> after the
  inner loop.\<close>

definition goertzelBin :: "real list \<Rightarrow> real \<Rightarrow> real \<times> real" where
  "goertzelBin x coeff =
    foldl (\<lambda>(s_prev, s_prev2) xn. (xn + coeff * s_prev - s_prev2, s_prev)) (0, 0) x"

text \<open>Returns \<open>(freqs, powers)\<close>. The source calls it with 120 bins only; \<open>bins - 1\<close>
  is then not zero.\<close>

definition goertzelSpectrum ::
  "real list \<Rightarrow> real \<Rightarrow> real \<times> real \<Rightarrow> nat \<Rightarrow> real list \<times> real list" where
  "goertzelSpectrum x fs band bins =
    (let f0 = fst band; f1 = snd band;
         bin = (\<lambda>i. let f = f0 + (f1 - f0) * (real i / (real bins - 1));
                        w = 2 * pi * f / fs;
                        coeff = 2 * cos w;
                        (s_prev, s_prev2) = goertzelBin x coeff;
                        re = s_prev - s_prev2 * cos w;
                        im = s_prev2 * sin w
                    in (f, re * re + im * im))
     in (map (\<lambda>i. fst (bin i)) [0..<bins], map (\<lambda>i. snd (bin i)) [0..<bins]))"

definition argmax :: "real list \<Rightarrow> nat" where
  "argmax a = foldl (\<lambda>m i. if a ! i > a ! m then i else m) 0 [1..<length a]"

definition median :: "real list \<Rightarrow> real" where
  "median a =
    (let b = sort a; n = length b
     in if n \<noteq> 0
        then (if n mod 2 \<noteq> 0 then b ! ((n - 1) div 2)
              else 0.5 * (b ! (n div 2 - 1) + b ! (n div 2)))
        else 0)"

definition clamp :: "real \<Rightarrow> real \<Rightarrow> real \<Rightarrow> real" where
  "clamp v lo hi = max lo (min hi v)"

subsection \<open>Peak detection (lines 569--594)\<close>

text \<open>
  Returns the interval (\<open>None\<close> is \<open>null\<close>) and the state, whose \<open>lastPeakT\<close> the
  function may have set. An empty window \<open>seg\<close> (only when \<open>Math.floor(winS * fs)\<close> is
  not positive) makes \<open>mean\<close> and \<open>thr\<close> \<open>NaN\<close>, so the comparison \<open>y[i] > thr\<close> is false:
  that is the conjunct \<open>seg \<noteq> []\<close>. The buffers \<open>t\<close> and \<open>bvp\<close> have the same length in
  every state the pipeline reaches, so \<open>t[i]\<close> is in range whenever \<open>y[i]\<close> is.
\<close>

definition detectPeakAndIBI :: "pipeline \<Rightarrow> real \<Rightarrow> real option \<times> pipeline" where
  "detectPeakAndIBI st fs =
    (let N = length (bvp st)
     in if N < 5 then (None, st)
        else let y = bvp st;
                 winS = min 5 (maxBufSec st);
                 i0 = int N - \<lfloor>winS * fs\<rfloor>;
                 i0' = (if i0 < 0 then 0 else i0);
                 seg = drop (nat i0') y;
                 mean = foldl (\<lambda>s v. s + v) 0 seg / real (length seg);
                 sd = sqrt (foldl (\<lambda>s v. s + (v - mean) * (v - mean)) 0 seg
                            / max 1 (real (length seg) - 1));
                 thr = mean + 0.6 * sd;
                 i = N - 2
             in if seg \<noteq> [] \<and> y ! i > thr \<and> y ! i > y ! (i - 1) \<and> y ! i > y ! (i + 1)
                then let tPeak = t st ! i
                     in if lastPeakT st < 0 \<or> tPeak - lastPeakT st > 0.33
                        then ((if lastPeakT st > 0 then Some (tPeak - lastPeakT st) else None),
                              st\<lparr> lastPeakT := tPeak \<rparr>)
                        else (None, st)
                else (None, st))"

text \<open>
  The two parts of \<open>detectPeakAndIBI\<close> named, for stating the refractory rule: the
  test of lines 571--584 that the second-to-last sample is a peak above the threshold,
  and the timestamp \<open>t[N - 2]\<close> of that sample.
\<close>

definition isPeak :: "pipeline \<Rightarrow> real \<Rightarrow> bool" where
  "isPeak st fs =
    (let N = length (bvp st);
         y = bvp st;
         winS = min 5 (maxBufSec st);
         i0 = int N - \<lfloor>winS * fs\<rfloor>;
         i0' = (if i0 < 0 then 0 else i0);
         seg = drop (nat i0') y;
         mean = foldl (\<lambda>s v. s + v) 0 seg / real (length seg);
         sd = sqrt (foldl (\<lambda>s v. s + (v - mean) * (v - mean)) 0 seg
                    / max 1 (real (length seg) - 1));
         thr = mean + 0.6 * sd;
         i = N - 2
     in \<not> N < 5 \<and> seg \<noteq> [] \<and> y ! i > thr \<and> y ! i > y ! (i - 1) \<and> y ! i > y ! (i + 1))"

definition peakTime :: "pipeline \<Rightarrow> real" where
  "peakTime st = t st ! (length (bvp st) - 2)"

subsection \<open>RMSSD (lines 596--605)\<close>

text \<open>\<open>None\<close> is the \<open>NaN\<close> the source returns for fewer than three intervals.\<close>

definition computeRMSSD :: "real list \<Rightarrow> real option" where
  "computeRMSSD ibisSec =
    (if length ibisSec < 3 then None
     else let rrMs = map (\<lambda>s. s * 1000) ibisSec;
              diffs = map (\<lambda>i. rrMs ! i - rrMs ! (i - 1)) [1..<length rrMs];
              sq = map (\<lambda>d. d * d) diffs;
              mean = foldl (\<lambda>s v. s + v) 0 sq / real (length sq)
          in Some (sqrt mean))"

subsection \<open>Trimming (lines 607--619)\<close>

text \<open>The first loop of \<open>trimBuffers\<close>: \<open>shift()\<close> on an empty array does nothing,
  as \<^term>\<open>tl\<close> does.\<close>

fun shiftWhile ::
  "real \<Rightarrow> real list \<Rightarrow> real list \<Rightarrow> real list \<Rightarrow> real list \<times> real list \<times> real list" where
  "shiftWhile cutoff [] g b = ([], g, b)"
| "shiftWhile cutoff (x # xs) g b =
    (if x < cutoff then shiftWhile cutoff xs (tl g) (tl b) else (x # xs, g, b))"

text \<open>The second loop: while there is an interval and more than one timestamp, stop
  when the span is within the window, else drop the oldest interval.\<close>

fun evictIbis :: "real list \<Rightarrow> real \<Rightarrow> real list \<Rightarrow> real list" where
  "evictIbis ts maxB [] = []"
| "evictIbis ts maxB (i # is) =
    (if length ts > 1
     then (if ts ! (length ts - 1) - ts ! 0 \<le> maxB then i # is else evictIbis ts maxB is)
     else i # is)"

definition trimBuffers :: "pipeline \<Rightarrow> pipeline" where
  "trimBuffers st =
    (if length (t st) = 0 then st
     else let tmax = t st ! (length (t st) - 1);
              cutoff = tmax - maxBufSec st;
              (ts', g', b') = shiftWhile cutoff (t st) (gRaw st) (bvp st);
              st1 = st\<lparr> t := ts', gRaw := g', bvp := b' \<rparr>
          in st1\<lparr> ibis := evictIbis (t st1) (maxBufSec st1) (ibis st1) \<rparr>)"

subsection \<open>One sample (lines 280--323)\<close>

text \<open>Lines 282--292: append the sample, filter it, trim.\<close>

definition appendSample :: "pipeline \<Rightarrow> real \<Rightarrow> real \<Rightarrow> real \<Rightarrow> pipeline" where
  "appendSample st tSec gMean fs =
    (let st1 = st\<lparr> t := t st @ [tSec], gRaw := gRaw st @ [gMean] \<rparr>;
         win = nat (max 5 \<lfloor>1.0 * fs\<rfloor>);
         detr = gMean - movingAverageTail (gRaw st1) win;
         (yh, hp') = step (hp st1) detr;
         (yl, lp') = step (lp st1) yh;
         st2 = st1\<lparr> hp := hp', lp := lp', bvp := bvp st1 @ [yl] \<rparr>
     in trimBuffers st2)"

text \<open>Lines 294--306: the spectral estimate. \<open>isFinite(hr)\<close> holds of every real;
  \<open>q ? ... : null\<close> is \<open>null\<close> for \<open>q\<close> null or zero.\<close>

definition spectralUpdate :: "pipeline \<Rightarrow> display \<Rightarrow> display" where
  "spectralUpdate st v =
    (let (segment, fsUsed) = getLatestSegment (bvp st) (t st) 12
     in if real (length segment) > fsUsed * 4
        then let (freqs, powers) = goertzelSpectrum segment fsUsed (0.7, 3.0) 120;
                 k = argmax powers;
                 fPeak = freqs ! k;
                 hr = fPeak * 60;
                 med = median powers;
                 q = (if med > 0 then Some (powers ! k / med) else None)
             in v\<lparr> hrBpm := Some (real_of_int (round hr)),
                   snr := (case q of
                             Some q' \<Rightarrow> if q' \<noteq> 0 then Some (real_of_int (round (q' * 10)) / 10)
                                        else None
                           | None \<Rightarrow> None) \<rparr>
        else v)"

text \<open>The test of line 296 alone: the segment has more than \<open>4 * fsUsed\<close> samples.\<close>

definition segmentSufficient :: "pipeline \<Rightarrow> bool" where
  "segmentSufficient st =
    (let (segment, fsUsed) = getLatestSegment (bvp st) (t st) 12
     in real (length segment) > fsUsed * 4)"

text \<open>Lines 316--320. \<open>hrBpm\<close> and \<open>rm\<close> are tested for truthiness: \<open>null\<close>, \<open>NaN\<close>
  and 0 give a zero term.\<close>

definition focusScoreOf ::
  "real option \<Rightarrow> real option \<Rightarrow> real option \<Rightarrow> real option \<Rightarrow> int" where
  "focusScoreOf hrNow rm bHR bRM =
    (let hrBase = (case bHR of Some b \<Rightarrow> b | None \<Rightarrow> 70);
         rmBase = (case bRM of Some b \<Rightarrow> b | None \<Rightarrow> 40);
         hrZ = (case hrNow of
                  Some h \<Rightarrow> if h \<noteq> 0 then (h - hrBase) / max 5 (0.1 * hrBase) else 0
                | None \<Rightarrow> 0);
         rmZ = (case rm of
                  Some r \<Rightarrow> if r \<noteq> 0 then (rmBase - r) / max 10 (0.25 * rmBase) else 0
                | None \<Rightarrow> 0)
     in max 0 (min 100 (round (50 + 20 * hrZ + 30 * rmZ))))"

text \<open>Lines 308--322. \<open>if (newIBI)\<close> fails for \<open>null\<close> and for 0. The reads of \<open>hrBpm\<close>,
  \<open>baselineHR\<close> and \<open>baselineRMSSD\<close> see the values of the render that created the
  closure, not what \<open>setHrBpm\<close> has just been given.\<close>

definition ibiUpdate :: "pipeline \<Rightarrow> display \<Rightarrow> display \<Rightarrow> real \<Rightarrow> pipeline \<times> display" where
  "ibiUpdate st v0 v fs =
    (let (newIBI, st1) = detectPeakAndIBI st fs
     in case newIBI of
          None \<Rightarrow> (st1, v)
        | Some ibi \<Rightarrow>
            if ibi = 0 then (st1, v)
            else let pushed = ibis st1 @ [ibi];
                     capped = (if length pushed > 20 then tl pushed else pushed);
                     st2 = st1\<lparr> ibis := capped \<rparr>;
                     rm = computeRMSSD capped;
                     v1 = (case rm of
                             Some r \<Rightarrow> v\<lparr> rmssd := Some (real_of_int (round r)) \<rparr>
                           | None \<Rightarrow> v);
                     score = focusScoreOf (hrBpm v0) rm (baselineHR v0) (baselineRMSSD v0)
                 in (st2, v1\<lparr> focusScore := Some (real_of_int score) \<rparr>))"

definition pushSample ::
  "pipeline \<Rightarrow> display \<Rightarrow> real \<Rightarrow> real \<Rightarrow> real \<Rightarrow> pipeline \<times> display" where
  "pushSample st v tSec gMean fs =
    (let st1 = appendSample st tSec gMean fs;
         v1 = spectralUpdate st1 v
     in ibiUpdate st1 v v1 fs)"

subsection \<open>Main loop (lines 193--278)\<close>

text \<open>Lines 198--205: the sampling clock. Returns the state and \<open>fs\<close>.\<close>

definition loopClock :: "pipeline \<Rightarrow> real \<Rightarrow> pipeline \<times> real" where
  "loopClock st now =
    (let dt = (now - lastTs st) / 1000;
         st1 = st\<lparr> lastTs := now \<rparr>;
         instFps = 1 / max dt (1 / 120);
         st2 = st1\<lparr> fpsEMA := fpsEMA st1 * 0.9 + instFps * 0.1 \<rparr>;
         fs = max 10 (min 90 (real_of_int (round (fpsEMA st2))))
     in (st2, fs))"

text \<open>
  One run of \<open>loop\<close> while \<open>running\<close>, with the time \<open>now\<close> of \<open>performance.now()\<close> in
  milliseconds and the brightness \<open>gMean\<close> that the camera or the demo generator
  supplies (lines 209--271) as inputs.
\<close>

definition loop :: "pipeline \<Rightarrow> display \<Rightarrow> real \<Rightarrow> real \<Rightarrow> pipeline \<times> display" where
  "loop st v now gMean =
    (let (st1, fs) = loopClock st now;
         st2 = st1\<lparr> hp := makeBiquadHP fs 0.7, lp := makeBiquadLP fs 3.0 \<rparr>;
         tSec = now / 1000
     in pushSample st2 v tSec gMean fs)"

text \<open>
  A sequence of frames, each \<open>(now, gMean)\<close>. A frame reads the display that the frame
  before it left, as after a render between the two; the reads only enter the focus
  score, and no property of a run below depends on them.
\<close>

fun runTicks :: "pipeline \<Rightarrow> display \<Rightarrow> (real \<times> real) list \<Rightarrow> pipeline \<times> display" where
  "runTicks st v [] = (st, v)"
| "runTicks st v ((now, gMean) # ticks) =
    (case loop st v now gMean of (st', v') \<Rightarrow> runTicks st' v' ticks)"

text \<open>The state that \<open>loop\<close> hands to \<open>pushSample\<close>: the clock advanced and both
  filters made anew (lines 198--207).\<close>

definition loopState :: "pipeline \<Rightarrow> real \<Rightarrow> pipeline" where
  "loopState st now =
    (fst (loopClock st now))\<lparr> hp := makeBiquadHP (snd (loopClock st now)) 0.7,
                              lp := makeBiquadLP (snd (loopClock st now)) 3.0 \<rparr>"

subsection \<open>Example inputs\<close>

text \<open>\<open>n\<close> frames 100 ms apart, at 100, 200, ... ms, each of brightness 128.\<close>

definition tenHzTicks :: "nat \<Rightarrow> (real \<times> real) list" where
  "tenHzTicks n = map (\<lambda>i. (100 * real i, 128)) [1..<Suc n]"

text \<open>
  Five samples 0.1 s apart whose second-to-last is a peak (the window has mean 0 and
  standard deviation 1, so the threshold is 0.6), at time \<open>tp\<close>, with the last
  accepted peak at \<open>lastPeak\<close>.
\<close>

definition peakExample :: "real \<Rightarrow> real \<Rightarrow> pipeline" where
  "peakExample tp lastPeak =
    initialState\<lparr> t := [tp - 0.3, tp - 0.2, tp - 0.1, tp, tp + 0.1],
                  gRaw := [128, 129, 128, 129, 128],
                  bvp := [-1, 1, -1, 1, 0], lastPeakT := lastPeak \<rparr>"

subsection \<open>Self test of the RMSSD (lines 343--348)\<close>

text \<open>
  The second test of \<open>runSelfTests\<close>: \<open>passRM\<close>, with the intervals and the expected
  value 28.3 ms that the source writes. A comparison with \<open>NaN\<close> is false.
\<close>

definition selfTestRMSSD :: bool where
  "selfTestRMSSD =
    (let ibis = [1.0, 1.0, 1.0, 1.04, 0.96];
         rm = computeRMSSD ibis
     in case rm of Some r \<Rightarrow> \<bar>r - 28.3\<bar> \<le> 5 | None \<Rightarrow> False)"

subsection \<open>RMSSD as the specification words it\<close>

text \<open>
  The specification's description of the metric, for comparison with \<open>computeRMSSD\<close>:
  the successive first differences of a sequence, and the root of the mean of the squared
  differences of the intervals in milliseconds, defined for three intervals or more.
\<close>

definition successiveDifferences :: "real list \<Rightarrow> real list" where
  "successiveDifferences xs = map (\<lambda>(a, b). b - a) (zip xs (tl xs))"

definition rmssd_spec :: "real list \<Rightarrow> real option" where
  "rmssd_spec intervals =
    (if length intervals < 3 then None
     else let ms = map (\<lambda>s. 1000 * s) intervals;
              d = successiveDifferences ms
          in Some (sqrt (sum_list (map (\<lambda>x. x\<^sup>2) d) / real (length d))))"

subsection \<open>The buffer invariant as the specification words it\<close>

text \<open>
  The timestamps are strictly increasing, and the span from the first to the last
  timestamp is at most the retention window.
\<close>

definition bufferInvariant :: "pipeline \<Rightarrow> bool" where
  "bufferInvariant st \<longleftrightarrow>
     sorted_wrt (<) (t st) \<and> (t st \<noteq> [] \<longrightarrow> last (t st) - hd (t st) \<le> maxBufSec st)"

subsection \<open>The filter re-derivation as the specification words it\<close>

text \<open>
  New coefficients, same running history: the coefficients of the filter made for this
  tick, with the two-sample input history and the two-sample output history of the
  filter that the previous tick left.
\<close>

definition rederived :: "biquad_filter \<Rightarrow> biquad_filter \<Rightarrow> biquad_filter" where
  "rederived fresh old = fresh\<lparr> x1 := x1 old, x2 := x2 old, y1 := y1 old, y2 := y2 old \<rparr>"

subsection \<open>The focus score as the specification words it\<close>




section \<open>Properties\<close>

subsection \<open>Folds and square roots\<close>

lemma foldl_plus_sum_list: "foldl (\<lambda>s v. s + v) a xs = a + sum_list (xs :: real list)"
  by (induction xs arbitrary: a) simp_all

lemma sqrt_2000_bounds: "44.72 < sqrt 2000 \<and> sqrt 2000 < 44.73"
proof
  have "(44.72::real) = sqrt (44.72^2)" by simp
  also have "\<dots> < sqrt 2000"
    by (subst real_sqrt_less_iff) (simp add: power2_eq_square)
  finally show "44.72 < sqrt 2000" .
  have "sqrt 2000 < sqrt (44.73^2)"
    by (subst real_sqrt_less_iff) (simp add: power2_eq_square)
  also have "\<dots> = (44.73::real)" by simp
  finally show "sqrt 2000 < 44.73" .
qed

subsection \<open>RMSSD\<close>

lemma computeRMSSD_selftest_input:
  "computeRMSSD [1.0, 1.0, 1.0, 1.04, 0.96] = Some (sqrt 2000)"
  by (simp add: computeRMSSD_def Let_def upt_rec)

text \<open>
  C4, on the code: for the intervals 1.0, 1.0, 1.0, 1.04, 0.96 s, \<open>computeRMSSD\<close>
  returns the square root of 2000, which is 44.72 ms to two decimals: the successive
  differences are 0, 0, 40 and 960 - 1040 = -80 ms, their mean square is 2000. That is
  not within 5 ms of 28.3 ms, and the self test of the source, which expects 28.3 ms,
  fails.
\<close>

theorem rmssd_selftest_value:
  "computeRMSSD [1.0, 1.0, 1.0, 1.04, 0.96] = Some (sqrt 2000)
   \<and> 44.72 < sqrt 2000 \<and> sqrt 2000 < 44.73
   \<and> \<not> \<bar>sqrt 2000 - 28.3\<bar> \<le> 5
   \<and> \<not> selfTestRMSSD"
  unfolding selfTestRMSSD_def Let_def computeRMSSD_selftest_input
  using sqrt_2000_bounds by simp

lemma index_differences:
  "map (\<lambda>i. xs ! i - xs ! (i - 1)) [1..<length xs] = successiveDifferences (xs::real list)"
proof (rule nth_equalityI)
  show "length (map (\<lambda>i. xs ! i - xs ! (i - 1)) [1..<length xs])
        = length (successiveDifferences xs)"
    by (simp add: successiveDifferences_def)
next
  fix k assume "k < length (map (\<lambda>i. xs ! i - xs ! (i - 1)) [1..<length xs])"
  then have k: "Suc k < length xs" by simp
  then have "[1..<length xs] ! k = Suc k" by simp
  with k show "map (\<lambda>i. xs ! i - xs ! (i - 1)) [1..<length xs] ! k
               = successiveDifferences xs ! k"
    by (simp add: successiveDifferences_def nth_tl)
qed

lemma computeRMSSD_spec: "computeRMSSD xs = rmssd_spec xs"
proof (cases "length xs < 3")
  case True
  then show ?thesis by (simp add: computeRMSSD_def rmssd_spec_def)
next
  case False
  define ms where "ms = map (\<lambda>s. s * 1000) xs"
  have m: "map (\<lambda>s. 1000 * s) xs = ms" by (simp add: ms_def mult.commute)
  have d: "map (\<lambda>i. ms ! i - ms ! (i - 1)) [1..<length ms] = successiveDifferences ms"
    by (rule index_differences)
  have "computeRMSSD xs =
      Some (sqrt (foldl (\<lambda>s v. s + v) 0 (map (\<lambda>d. d * d) (successiveDifferences ms))
                  / real (length (map (\<lambda>d. d * d) (successiveDifferences ms)))))"
    using False unfolding computeRMSSD_def Let_def ms_def[symmetric] d by simp
  also have "\<dots> = rmssd_spec xs"
    using False unfolding rmssd_spec_def Let_def m
    by (simp add: foldl_plus_sum_list power2_eq_square)
  finally show ?thesis .
qed

text \<open>
  C7: \<open>computeRMSSD\<close> is the metric as the specification describes it (milliseconds,
  successive first differences, squares, mean, square root) on every list; three
  intervals give exactly two differences; fewer than three intervals give no value.
\<close>

theorem computeRMSSD_refines_spec:
  "computeRMSSD xs = rmssd_spec xs
   \<and> length (successiveDifferences (map (\<lambda>s. 1000 * s) [a, b, c])) = 2
   \<and> computeRMSSD [a, b, c]
       = Some (sqrt (((1000 * b - 1000 * a)\<^sup>2 + (1000 * c - 1000 * b)\<^sup>2) / 2))
   \<and> computeRMSSD [] = None \<and> computeRMSSD [a] = None \<and> computeRMSSD [a, b] = None"
proof -
  have "computeRMSSD [a, b, c]
        = Some (sqrt (((1000 * b - 1000 * a)\<^sup>2 + (1000 * c - 1000 * b)\<^sup>2) / 2))"
    by (simp add: computeRMSSD_def Let_def upt_rec power2_eq_square mult.commute)
  then show ?thesis
    by (simp add: computeRMSSD_spec) (simp add: rmssd_spec_def successiveDifferences_def)
qed

theorem computeRMSSD_refines_spec_witness:
  "computeRMSSD [0.8, 0.9, 0.7] = Some (sqrt 25000)
   \<and> rmssd_spec [0.8, 0.9, 0.7] = Some (sqrt 25000)
   \<and> computeRMSSD [0.8, 0.9] = None"
  using computeRMSSD_refines_spec [of "[0.8, 0.9, 0.7]" "0.8" "0.9" "0.7"]
  by (auto simp: power2_eq_square)

subsection \<open>Sampling clock\<close>

lemma round_clamp:
  "max 10 (min 90 (real_of_int (round x))) = real_of_int (round (clamp x 10 90))"
proof -
  have r10: "round (10::real) = 10" and r90: "round (90::real) = 90" by simp_all
  consider "x < 10" | "10 \<le> x" "x \<le> 90" | "90 < x" by linarith
  then show ?thesis
  proof cases
    case 1
    then have "round x \<le> 10" using round_mono [of x 10] r10 by simp
    with 1 show ?thesis by (simp add: clamp_def max_def min_def)
  next
    case 2
    then have "10 \<le> round x" "round x \<le> 90"
      using round_mono [of 10 x] round_mono [of x 90] r10 r90 by simp_all
    with 2 show ?thesis by (simp add: clamp_def max_def min_def)
  next
    case 3
    then have "90 \<le> round x" using round_mono [of 90 x] r90 by simp
    with 3 show ?thesis by (simp add: clamp_def max_def min_def)
  qed
qed

text \<open>
  C8: on every tick \<open>fpsEMA\<close> becomes \<open>fpsEMA * 0.9 + instFps * 0.1\<close> with
  \<open>instFps = 1 / max(dt, 1/120)\<close> and \<open>dt\<close> the seconds since the previous tick; the
  rate \<open>fs\<close> that the tick uses is \<open>round(clamp(fpsEMA, 10, 90))\<close> and lies between 10
  and 90; the divisor \<open>max(dt, 1/120)\<close> is positive for every \<open>dt\<close>, so nothing is divided
  by zero. It holds in every state and at every time, hence along every sequence.
\<close>

theorem sampling_clock:
  "fpsEMA (fst (loopClock st now))
     = fpsEMA st * 0.9 + (1 / max ((now - lastTs st) / 1000) (1 / 120)) * 0.1
   \<and> snd (loopClock st now)
     = real_of_int (round (clamp (fpsEMA (fst (loopClock st now))) 10 90))
   \<and> 10 \<le> snd (loopClock st now) \<and> snd (loopClock st now) \<le> 90
   \<and> 0 < max ((now - lastTs st) / 1000) (1 / 120)
   \<and> lastTs (fst (loopClock st now)) = now"
  by (simp add: loopClock_def Let_def round_clamp [symmetric])

text \<open>A tick with \<open>dt = 0\<close>: the instantaneous rate is 120, \<open>fpsEMA\<close> goes from 30 to 39.\<close>

theorem sampling_clock_witness:
  "snd (loopClock (initialState\<lparr>lastTs := 1000\<rparr>) 1000) = 39"
  using sampling_clock [of "initialState\<lparr>lastTs := 1000\<rparr>" 1000]
  by (simp add: initialState_def clamp_def)

subsection \<open>Trimming\<close>

lemma shiftWhile_t: "fst (shiftWhile c ts g b) = dropWhile (\<lambda>x. x < c) ts"
  by (induction c ts g b rule: shiftWhile.induct) simp_all

lemma shiftWhile_gRaw:
  "fst (snd (shiftWhile c ts g b)) = drop (length (takeWhile (\<lambda>x. x < c) ts)) g"
  by (induction c ts g b rule: shiftWhile.induct) (simp_all add: drop_Suc)

lemma shiftWhile_bvp:
  "snd (snd (shiftWhile c ts g b)) = drop (length (takeWhile (\<lambda>x. x < c) ts)) b"
  by (induction c ts g b rule: shiftWhile.induct) (simp_all add: drop_Suc)

lemma evictIbis_within:
  "(1 < length ts \<longrightarrow> ts ! (length ts - 1) - ts ! 0 \<le> maxB) \<Longrightarrow> evictIbis ts maxB is = is"
  by (cases "is") simp_all

lemma trimBuffers_t:
  "t (trimBuffers st) =
     (if t st = [] then [] else dropWhile (\<lambda>x. x < last (t st) - maxBufSec st) (t st))"
  by (simp add: trimBuffers_def Let_def split_def shiftWhile_t last_conv_nth)

lemma dropWhile_span:
  assumes "dropWhile (\<lambda>x. x < last ts - m) ts \<noteq> []"
  shows "last (dropWhile (\<lambda>x. x < last ts - m) ts)
         - hd (dropWhile (\<lambda>x. x < last ts - m) ts) \<le> (m::real)"
proof -
  let ?d = "dropWhile (\<lambda>x. x < last ts - m) ts"
  have "\<not> hd ?d < last ts - m" using assms by (rule hd_dropWhile)
  moreover have "last ?d = last ts"
    using assms by (metis last_appendR takeWhile_dropWhile_id)
  ultimately show ?thesis by simp
qed

lemma trimBuffers_span:
  "t (trimBuffers st) \<noteq> [] \<Longrightarrow>
   last (t (trimBuffers st)) - hd (t (trimBuffers st)) \<le> maxBufSec st"
  by (auto simp: trimBuffers_t dropWhile_span split: if_splits)

lemma trimBuffers_ibis: "ibis (trimBuffers st) = ibis st"
proof (cases "t st = []")
  case True
  then show ?thesis by (simp add: trimBuffers_def)
next
  case False
  let ?d = "dropWhile (\<lambda>x. x < last (t st) - maxBufSec st) (t st)"
  have "1 < length ?d \<longrightarrow> ?d ! (length ?d - 1) - ?d ! 0 \<le> maxBufSec st"
  proof
    assume "1 < length ?d"
    then have ne: "?d \<noteq> []" by (metis list.size(3) less_nat_zero_code)
    then show "?d ! (length ?d - 1) - ?d ! 0 \<le> maxBufSec st"
      using dropWhile_span [OF ne] by (simp add: last_conv_nth hd_conv_nth)
  qed
  then show ?thesis
    using False
    by (simp add: trimBuffers_def Let_def split_def shiftWhile_t last_conv_nth evictIbis_within)
qed

lemma trimBuffers_maxBufSec: "maxBufSec (trimBuffers st) = maxBufSec st"
  by (simp add: trimBuffers_def Let_def split_def)

lemma evictIbis_trimmed: "evictIbis (t (trimBuffers st)) (maxBufSec st) is = is"
proof (rule evictIbis_within, rule impI)
  let ?d = "t (trimBuffers st)"
  assume "1 < length ?d"
  then have ne: "?d \<noteq> []" by (metis list.size(3) less_nat_zero_code)
  then show "?d ! (length ?d - 1) - ?d ! 0 \<le> maxBufSec st"
    using trimBuffers_span [OF ne] by (simp add: last_conv_nth hd_conv_nth)
qed

subsection \<open>What one sample does to the buffers\<close>

lemma initial_fields:
  "t initialState = []" "maxBufSec initialState = 60" "ibis initialState = []"
  "gRaw initialState = []" "bvp initialState = []" "lastPeakT initialState = - 1"
  by (simp_all add: initialState_def)

lemma appendSample_t:
  "t (appendSample st tSec gMean fs)
   = dropWhile (\<lambda>x. x < tSec - maxBufSec st) (t st @ [tSec])"
  by (simp add: appendSample_def Let_def split_def trimBuffers_t)

lemma appendSample_ibis: "ibis (appendSample st tSec gMean fs) = ibis st"
  by (simp add: appendSample_def Let_def split_def trimBuffers_ibis)

lemma appendSample_maxBufSec: "maxBufSec (appendSample st tSec gMean fs) = maxBufSec st"
  by (simp add: appendSample_def Let_def split_def trimBuffers_maxBufSec)

lemma detectPeakAndIBI_isPeak:
  "detectPeakAndIBI st fs =
    (if isPeak st fs
     then (if lastPeakT st < 0 \<or> peakTime st - lastPeakT st > 0.33
           then ((if lastPeakT st > 0 then Some (peakTime st - lastPeakT st) else None),
                 st\<lparr> lastPeakT := peakTime st \<rparr>)
           else (None, st))
     else (None, st))"
proof (cases "length (bvp st) < 5")
  case True
  then show ?thesis by (simp add: detectPeakAndIBI_def isPeak_def Let_def)
next
  case False
  show ?thesis
  proof (cases "isPeak st fs")
    case True
    then show ?thesis
      using False unfolding detectPeakAndIBI_def isPeak_def peakTime_def Let_def
      by (simp only: if_True if_False simp_thms)
  next
    case nope: False
    then show ?thesis
      using False unfolding detectPeakAndIBI_def isPeak_def peakTime_def Let_def
      by (simp only: if_True if_False simp_thms)
  qed
qed

lemma detectPeakAndIBI_t: "t (snd (detectPeakAndIBI st fs)) = t st"
  by (simp add: detectPeakAndIBI_isPeak)

lemma detectPeakAndIBI_ibis: "ibis (snd (detectPeakAndIBI st fs)) = ibis st"
  by (simp add: detectPeakAndIBI_isPeak)

lemma detectPeakAndIBI_maxBufSec: "maxBufSec (snd (detectPeakAndIBI st fs)) = maxBufSec st"
  by (simp add: detectPeakAndIBI_isPeak)

lemma detectPeakAndIBI_buffers:
  "gRaw (snd (detectPeakAndIBI st fs)) = gRaw st" "bvp (snd (detectPeakAndIBI st fs)) = bvp st"
  by (simp_all add: detectPeakAndIBI_isPeak)

lemma ibiUpdate_t: "t (fst (ibiUpdate st v0 v fs)) = t st"
  by (simp add: ibiUpdate_def Let_def split_def detectPeakAndIBI_t split: option.splits)

lemma ibiUpdate_maxBufSec: "maxBufSec (fst (ibiUpdate st v0 v fs)) = maxBufSec st"
  by (simp add: ibiUpdate_def Let_def split_def detectPeakAndIBI_maxBufSec split: option.splits)

lemma pushSample_t:
  "t (fst (pushSample st v tSec gMean fs))
   = dropWhile (\<lambda>x. x < tSec - maxBufSec st) (t st @ [tSec])"
  by (simp add: pushSample_def Let_def ibiUpdate_t appendSample_t)

lemma pushSample_maxBufSec: "maxBufSec (fst (pushSample st v tSec gMean fs)) = maxBufSec st"
  by (simp add: pushSample_def Let_def ibiUpdate_maxBufSec appendSample_maxBufSec)

lemma loopClock_fields:
  "t (fst (loopClock st now)) = t st" "maxBufSec (fst (loopClock st now)) = maxBufSec st"
  "ibis (fst (loopClock st now)) = ibis st"
  by (simp_all add: loopClock_def Let_def)

lemma loop_t:
  "t (fst (loop st v now gMean))
   = dropWhile (\<lambda>x. x < now / 1000 - maxBufSec st) (t st @ [now / 1000])"
  by (simp add: loop_def Let_def split_def pushSample_t loopClock_fields)

lemma loop_maxBufSec: "maxBufSec (fst (loop st v now gMean)) = maxBufSec st"
  by (simp add: loop_def Let_def split_def pushSample_maxBufSec loopClock_fields)

lemma trimBuffers_gRaw:
  "gRaw (trimBuffers st) =
     (if t st = [] then gRaw st
      else drop (length (takeWhile (\<lambda>x. x < last (t st) - maxBufSec st) (t st))) (gRaw st))"
  by (simp add: trimBuffers_def Let_def split_def shiftWhile_gRaw last_conv_nth)

lemma trimBuffers_bvp:
  "bvp (trimBuffers st) =
     (if t st = [] then bvp st
      else drop (length (takeWhile (\<lambda>x. x < last (t st) - maxBufSec st) (t st))) (bvp st))"
  by (simp add: trimBuffers_def Let_def split_def shiftWhile_bvp last_conv_nth)

lemma appendSample_gRaw:
  "gRaw (appendSample st tSec gMean fs)
   = drop (length (takeWhile (\<lambda>x. x < tSec - maxBufSec st) (t st @ [tSec])))
       (gRaw st @ [gMean])"
  by (simp add: appendSample_def Let_def split_def trimBuffers_gRaw)

lemma appendSample_bvp:
  "bvp (appendSample st tSec gMean fs)
   = drop (length (takeWhile (\<lambda>x. x < tSec - maxBufSec st) (t st @ [tSec])))
       (bvp st @ [fst (step (lp st) (fst (step (hp st)
           (gMean - movingAverageTail (gRaw st @ [gMean]) (nat (max 5 \<lfloor>fs\<rfloor>))))))])"
  by (simp add: appendSample_def Let_def split_def trimBuffers_bvp)

lemma appendSample_lengths:
  assumes "length (gRaw st) = length (t st)" "length (bvp st) = length (t st)"
  shows "length (gRaw (appendSample st tSec gMean fs))
           = length (t (appendSample st tSec gMean fs))
       \<and> length (bvp (appendSample st tSec gMean fs))
           = length (t (appendSample st tSec gMean fs))"
  using assms by (simp add: appendSample_gRaw appendSample_bvp appendSample_t dropWhile_eq_drop)

lemma ibiUpdate_buffers:
  "gRaw (fst (ibiUpdate st v0 v fs)) = gRaw st" "bvp (fst (ibiUpdate st v0 v fs)) = bvp st"
  by (simp_all add: ibiUpdate_def Let_def split_def detectPeakAndIBI_buffers
      split: option.splits)

lemma ibiUpdate_display:
  "hrBpm (snd (ibiUpdate st v0 v fs)) = hrBpm v" "snr (snd (ibiUpdate st v0 v fs)) = snr v"
  by (simp_all add: ibiUpdate_def Let_def split_def split: option.splits)

lemma pushSample_buffers:
  "gRaw (fst (pushSample st v tSec gMean fs)) = gRaw (appendSample st tSec gMean fs)"
  "bvp (fst (pushSample st v tSec gMean fs)) = bvp (appendSample st tSec gMean fs)"
  "t (fst (pushSample st v tSec gMean fs)) = t (appendSample st tSec gMean fs)"
  by (simp_all add: pushSample_def Let_def ibiUpdate_buffers ibiUpdate_t)

lemma pushSample_display:
  "hrBpm (snd (pushSample st v tSec gMean fs))
   = hrBpm (spectralUpdate (appendSample st tSec gMean fs) v)"
  "snr (snd (pushSample st v tSec gMean fs))
   = snr (spectralUpdate (appendSample st tSec gMean fs) v)"
  by (simp_all add: pushSample_def Let_def ibiUpdate_display)

lemma loop_pushSample:
  "loop st v now gMean
   = pushSample (loopState st now) v (now / 1000) gMean (snd (loopClock st now))"
  by (simp add: loop_def loopState_def split_def Let_def)

lemma loopState_fields:
  "t (loopState st now) = t st" "gRaw (loopState st now) = gRaw st"
  "bvp (loopState st now) = bvp st" "maxBufSec (loopState st now) = maxBufSec st"
  by (simp_all add: loopState_def loopClock_def Let_def)

lemma loop_gRaw:
  "gRaw (fst (loop st v now gMean))
   = drop (length (takeWhile (\<lambda>x. x < now / 1000 - maxBufSec st) (t st @ [now / 1000])))
       (gRaw st @ [gMean])"
  by (simp add: loop_pushSample pushSample_buffers appendSample_gRaw loopState_fields)

lemma loop_lengths:
  assumes "length (gRaw st) = length (t st)" "length (bvp st) = length (t st)"
  shows "length (gRaw (fst (loop st v now gMean))) = length (t (fst (loop st v now gMean)))
       \<and> length (bvp (fst (loop st v now gMean))) = length (t (fst (loop st v now gMean)))"
  unfolding loop_pushSample pushSample_buffers
  using assms by (intro appendSample_lengths) (simp_all add: loopState_fields)

subsection \<open>Runs of ticks\<close>

lemma runTicks_append:
  "runTicks st v (xs @ ys) = runTicks (fst (runTicks st v xs)) (snd (runTicks st v xs)) ys"
  by (induction xs arbitrary: st v) (auto simp: split_def)

lemma runTicks_snoc:
  "runTicks st v (ticks @ [(now, gMean)])
   = loop (fst (runTicks st v ticks)) (snd (runTicks st v ticks)) now gMean"
  by (simp only: runTicks_append) (simp add: split_def)

lemma runTicks_maxBufSec: "maxBufSec (fst (runTicks st v ticks)) = maxBufSec st"
  by (induction ticks arbitrary: st v) (auto simp: split_def loop_maxBufSec)

lemma runTicks_lengths:
  "length (gRaw st) = length (t st) \<Longrightarrow> length (bvp st) = length (t st) \<Longrightarrow>
   length (gRaw (fst (runTicks st v ticks))) = length (t (fst (runTicks st v ticks)))
   \<and> length (bvp (fst (runTicks st v ticks))) = length (t (fst (runTicks st v ticks)))"
proof (induction ticks arbitrary: st v)
  case Nil
  then show ?case by simp
next
  case (Cons k ticks)
  obtain now gMean where k: "k = (now, gMean)" by (cases k)
  show ?case
    using Cons.IH [of "fst (loop st v now gMean)" "snd (loop st v now gMean)"]
          loop_lengths [OF Cons.prems, of v now gMean]
    by (simp add: k split_def)
qed

text \<open>While all timestamps fit into one retention window, nothing is trimmed.\<close>

lemma runTicks_t_window:
  "\<forall>x\<in>set (t st @ map (\<lambda>k. fst k / 1000) ticks). lo \<le> x \<and> x \<le> lo + maxBufSec st \<Longrightarrow>
   t (fst (runTicks st v ticks)) = t st @ map (\<lambda>k. fst k / 1000) ticks"
proof (induction ticks arbitrary: st v)
  case Nil
  then show ?case by simp
next
  case (Cons k ticks)
  obtain now gMean where k: "k = (now, gMean)" by (cases k)
  let ?st' = "fst (loop st v now gMean)"
  have up: "now / 1000 \<le> lo + maxBufSec st"
    using Cons.prems by (simp add: k)
  have "\<forall>x\<in>set (t st @ [now / 1000]). \<not> x < now / 1000 - maxBufSec st"
  proof
    fix x assume "x \<in> set (t st @ [now / 1000])"
    then have "lo \<le> x" using Cons.prems by (auto simp: k)
    with up show "\<not> x < now / 1000 - maxBufSec st" by linarith
  qed
  then have "dropWhile (\<lambda>x. x < now / 1000 - maxBufSec st) (t st @ [now / 1000])
             = t st @ [now / 1000]"
    by (metis dropWhile_eq_self_iff hd_in_set)
  then have t': "t ?st' = t st @ [now / 1000]" by (simp add: loop_t)
  have "t (fst (runTicks ?st' (snd (loop st v now gMean)) ticks))
        = t ?st' @ map (\<lambda>k. fst k / 1000) ticks"
    using Cons.prems by (intro Cons.IH) (simp add: t' k loop_maxBufSec)
  then show ?case by (simp add: k split_def t')
qed

subsection \<open>Inter-beat intervals leave by the count cap only\<close>

lemma ibiUpdate_ibis:
  "ibis (fst (ibiUpdate st v0 v fs)) = ibis st
   \<or> (\<exists>ibi. ibis (fst (ibiUpdate st v0 v fs)) = ibis st @ [ibi] \<and> length (ibis st) < 20)
   \<or> (\<exists>ibi. ibis (fst (ibiUpdate st v0 v fs)) = tl (ibis st @ [ibi])
             \<and> 20 \<le> length (ibis st))"
proof (cases "fst (detectPeakAndIBI st fs)")
  case None
  then show ?thesis by (simp add: ibiUpdate_def split_def detectPeakAndIBI_ibis)
next
  case (Some ibi)
  show ?thesis
  proof (cases "ibi = 0")
    case True
    with Some show ?thesis by (simp add: ibiUpdate_def split_def detectPeakAndIBI_ibis)
  next
    case False
    with Some have "ibis (fst (ibiUpdate st v0 v fs))
        = (if length (ibis st @ [ibi]) > 20 then tl (ibis st @ [ibi]) else ibis st @ [ibi])"
      by (simp add: ibiUpdate_def split_def Let_def detectPeakAndIBI_ibis)
    then show ?thesis by (cases "20 \<le> length (ibis st)") auto
  qed
qed

lemma pushSample_ibis:
  "ibis (fst (pushSample st v tSec gMean fs)) = ibis st
   \<or> (\<exists>ibi. ibis (fst (pushSample st v tSec gMean fs)) = ibis st @ [ibi]
             \<and> length (ibis st) < 20)
   \<or> (\<exists>ibi. ibis (fst (pushSample st v tSec gMean fs)) = tl (ibis st @ [ibi])
             \<and> 20 \<le> length (ibis st))"
  using ibiUpdate_ibis [of "appendSample st tSec gMean fs" v
                           "spectralUpdate (appendSample st tSec gMean fs) v" fs]
  by (simp add: pushSample_def Let_def appendSample_ibis)

text \<open>
  C10: \<open>trimBuffers\<close> leaves the intervals as they are, because after its first loop
  the span of the timestamps is at most \<open>maxBufSec\<close> and the second loop stops at once,
  whatever the intervals; \<open>pushSample\<close> keeps the intervals, or appends one, or appends
  one and drops the oldest, the last only when there were 20 already. No order of the
  timestamps is needed.
\<close>

theorem ibi_eviction_only_by_cap:
  "ibis (trimBuffers st) = ibis st
   \<and> evictIbis (t (trimBuffers st)) (maxBufSec st) is = is
   \<and> (t (trimBuffers st) \<noteq> [] \<longrightarrow>
        last (t (trimBuffers st)) - hd (t (trimBuffers st)) \<le> maxBufSec st)
   \<and> (ibis (fst (pushSample st v tSec gMean fs)) = ibis st
      \<or> (\<exists>ibi. ibis (fst (pushSample st v tSec gMean fs)) = ibis st @ [ibi]
                \<and> length (ibis st) < 20)
      \<or> (\<exists>ibi. ibis (fst (pushSample st v tSec gMean fs)) = tl (ibis st @ [ibi])
                \<and> 20 \<le> length (ibis st)))"
  using pushSample_ibis [of st v tSec gMean fs]
  by (simp add: trimBuffers_ibis evictIbis_trimmed trimBuffers_span)

theorem ibi_eviction_only_by_cap_witness:
  "t (trimBuffers (initialState\<lparr> t := [0, 30, 61], gRaw := [1, 2, 3], bvp := [4, 5, 6],
                                 ibis := [0.8, 0.9] \<rparr>)) = [30, 61]
   \<and> ibis (trimBuffers (initialState\<lparr> t := [0, 30, 61], gRaw := [1, 2, 3], bvp := [4, 5, 6],
                                     ibis := [0.8, 0.9] \<rparr>)) = [0.8, 0.9]
   \<and> (61::real) - 30 \<le> 60"
  using ibi_eviction_only_by_cap
          [of "initialState\<lparr> t := [0, 30, 61], gRaw := [1, 2, 3], bvp := [4, 5, 6],
                              ibis := [0.8, 0.9] \<rparr>" "[]" initialDisplay 0 0 30]
  by (simp add: trimBuffers_t initial_fields)

subsection \<open>Every tick is stored\<close>

lemma dropWhile_snoc_last:
  "\<not> P x \<Longrightarrow> dropWhile P (xs @ [x]) \<noteq> [] \<and> last (dropWhile P (xs @ [x])) = x"
  by (induction xs) auto

lemma takeWhile_snoc_length: "\<not> P x \<Longrightarrow> length (takeWhile P (xs @ [x])) \<le> length xs"
  by (induction xs) auto

lemma drop_snoc_last:
  "k \<le> length xs \<Longrightarrow> drop k (xs @ [x]) \<noteq> [] \<and> last (drop k (xs @ [x])) = x"
  by simp

lemma one_tick_buffers:
  "t (fst (runTicks initialState initialDisplay [(2000, 128)])) = [2]"
  "gRaw (fst (runTicks initialState initialDisplay [(2000, 128)])) = [128]"
  "maxBufSec (fst (runTicks initialState initialDisplay [(2000, 128)])) = 60"
  by (simp_all add: split_def loop_t loop_gRaw loop_maxBufSec initial_fields)

lemma one_tick_filtered:
  "length (bvp (fst (runTicks initialState initialDisplay [(2000, 128)]))) = 1"
proof -
  have "length (bvp (fst (runTicks initialState initialDisplay [(2000, 128)])))
        = length (t (fst (runTicks initialState initialDisplay [(2000, 128)])))"
    using runTicks_lengths [of initialState initialDisplay "[(2000, 128)]"]
    by (simp only: initial_fields list.size simp_thms)
  then show ?thesis unfolding one_tick_buffers by simp
qed

text \<open>
  C2, as stated: a tick whose timestamp is not greater than the previous one is
  rejected and the buffer is left as it was. After one frame at 2 s, \<open>pushSample\<close> with
  the timestamp 1.5 s stores the sample: the timestamps are \<open>[2, 1.5]\<close>, the raw
  values \<open>[128, 130]\<close>, and there are two filtered values.
\<close>

theorem out_of_order_tick_is_stored:
  "t (fst (runTicks initialState initialDisplay [(2000, 128)])) = [2]
   \<and> (1.5::real) \<le> 2
   \<and> t (fst (pushSample (fst (runTicks initialState initialDisplay [(2000, 128)]))
                        (snd (runTicks initialState initialDisplay [(2000, 128)])) 1.5 130 30))
     = [2, 1.5]
   \<and> gRaw (fst (pushSample (fst (runTicks initialState initialDisplay [(2000, 128)]))
                        (snd (runTicks initialState initialDisplay [(2000, 128)])) 1.5 130 30))
     = [128, 130]
   \<and> length (bvp (fst (pushSample (fst (runTicks initialState initialDisplay [(2000, 128)]))
                        (snd (runTicks initialState initialDisplay [(2000, 128)])) 1.5 130 30)))
     = 2"
  unfolding pushSample_t pushSample_buffers appendSample_gRaw appendSample_bvp one_tick_buffers
  using one_tick_filtered by simp

text \<open>
  C2, amended: \<open>pushSample\<close> checks no timestamp and has no error result. For every
  tick, whatever its timestamp, the timestamp, the raw value and the filtered value
  (the output of the two filter steps on the detrended raw value) are appended to their
  buffers, and the three buffers are then trimmed by the same number of head entries,
  those older than the tick's timestamp less the retention window. With a retention
  window that is not negative, the tick's timestamp, raw value and filtered value are
  the last entries of their buffers afterwards, and buffers of equal length stay of
  equal length.
\<close>

theorem pushSample_accepts_every_tick:
  "t (fst (pushSample st v tSec gMean fs))
     = dropWhile (\<lambda>x. x < tSec - maxBufSec st) (t st @ [tSec])
   \<and> gRaw (fst (pushSample st v tSec gMean fs))
     = drop (length (takeWhile (\<lambda>x. x < tSec - maxBufSec st) (t st @ [tSec])))
         (gRaw st @ [gMean])
   \<and> bvp (fst (pushSample st v tSec gMean fs))
     = drop (length (takeWhile (\<lambda>x. x < tSec - maxBufSec st) (t st @ [tSec])))
         (bvp st @ [fst (step (lp st) (fst (step (hp st)
            (gMean - movingAverageTail (gRaw st @ [gMean]) (nat (max 5 \<lfloor>fs\<rfloor>))))))])
   \<and> (0 \<le> maxBufSec st \<longrightarrow>
        t (fst (pushSample st v tSec gMean fs)) \<noteq> []
        \<and> last (t (fst (pushSample st v tSec gMean fs))) = tSec)
   \<and> (0 \<le> maxBufSec st \<and> length (gRaw st) = length (t st) \<longrightarrow>
        gRaw (fst (pushSample st v tSec gMean fs)) \<noteq> []
        \<and> last (gRaw (fst (pushSample st v tSec gMean fs))) = gMean)
   \<and> (0 \<le> maxBufSec st \<and> length (bvp st) = length (t st) \<longrightarrow>
        bvp (fst (pushSample st v tSec gMean fs)) \<noteq> []
        \<and> last (bvp (fst (pushSample st v tSec gMean fs)))
          = fst (step (lp st) (fst (step (hp st)
              (gMean - movingAverageTail (gRaw st @ [gMean]) (nat (max 5 \<lfloor>fs\<rfloor>)))))))
   \<and> (length (gRaw st) = length (t st) \<and> length (bvp st) = length (t st) \<longrightarrow>
        length (gRaw (fst (pushSample st v tSec gMean fs)))
          = length (t (fst (pushSample st v tSec gMean fs)))
        \<and> length (bvp (fst (pushSample st v tSec gMean fs)))
          = length (t (fst (pushSample st v tSec gMean fs))))"
proof (intro conjI impI)
  show "t (fst (pushSample st v tSec gMean fs))
     = dropWhile (\<lambda>x. x < tSec - maxBufSec st) (t st @ [tSec])"
    by (rule pushSample_t)
next
  show "gRaw (fst (pushSample st v tSec gMean fs))
     = drop (length (takeWhile (\<lambda>x. x < tSec - maxBufSec st) (t st @ [tSec])))
         (gRaw st @ [gMean])"
    unfolding pushSample_buffers by (rule appendSample_gRaw)
next
  show "bvp (fst (pushSample st v tSec gMean fs))
     = drop (length (takeWhile (\<lambda>x. x < tSec - maxBufSec st) (t st @ [tSec])))
         (bvp st @ [fst (step (lp st) (fst (step (hp st)
            (gMean - movingAverageTail (gRaw st @ [gMean]) (nat (max 5 \<lfloor>fs\<rfloor>))))))])"
    unfolding pushSample_buffers by (rule appendSample_bvp)
next
  assume "0 \<le> maxBufSec st"
  then have "\<not> tSec < tSec - maxBufSec st" by simp
  then show "t (fst (pushSample st v tSec gMean fs)) \<noteq> []"
    and "last (t (fst (pushSample st v tSec gMean fs))) = tSec"
    unfolding pushSample_t by (simp_all only: dropWhile_snoc_last not_False_eq_True)
next
  assume a: "0 \<le> maxBufSec st \<and> length (gRaw st) = length (t st)"
  then have "\<not> tSec < tSec - maxBufSec st" by simp
  then have "length (takeWhile (\<lambda>x. x < tSec - maxBufSec st) (t st @ [tSec]))
             \<le> length (gRaw st)"
    using a takeWhile_snoc_length [of "\<lambda>x. x < tSec - maxBufSec st" tSec "t st"] by simp
  then show "gRaw (fst (pushSample st v tSec gMean fs)) \<noteq> []"
    and "last (gRaw (fst (pushSample st v tSec gMean fs))) = gMean"
    unfolding pushSample_buffers appendSample_gRaw
    by (simp_all only: drop_snoc_last not_False_eq_True)
next
  assume a: "0 \<le> maxBufSec st \<and> length (bvp st) = length (t st)"
  then have "\<not> tSec < tSec - maxBufSec st" by simp
  then have "length (takeWhile (\<lambda>x. x < tSec - maxBufSec st) (t st @ [tSec]))
             \<le> length (bvp st)"
    using a takeWhile_snoc_length [of "\<lambda>x. x < tSec - maxBufSec st" tSec "t st"] by simp
  then show "bvp (fst (pushSample st v tSec gMean fs)) \<noteq> []"
    and "last (bvp (fst (pushSample st v tSec gMean fs)))
          = fst (step (lp st) (fst (step (hp st)
              (gMean - movingAverageTail (gRaw st @ [gMean]) (nat (max 5 \<lfloor>fs\<rfloor>))))))"
    unfolding pushSample_buffers appendSample_bvp
    by (simp_all only: drop_snoc_last not_False_eq_True)
next
  assume a: "length (gRaw st) = length (t st) \<and> length (bvp st) = length (t st)"
  then show "length (gRaw (fst (pushSample st v tSec gMean fs)))
          = length (t (fst (pushSample st v tSec gMean fs)))"
    and "length (bvp (fst (pushSample st v tSec gMean fs)))
          = length (t (fst (pushSample st v tSec gMean fs)))"
    unfolding pushSample_buffers using appendSample_lengths [of st tSec gMean fs] by simp_all
qed

text \<open>A tick with the timestamp of the tick before it.\<close>

theorem pushSample_accepts_every_tick_witness:
  "(0::real) \<le> maxBufSec initialState
   \<and> last (t (fst (pushSample (initialState\<lparr> t := [2], gRaw := [128], bvp := [0] \<rparr>)
                              initialDisplay 2 130 30))) = 2
   \<and> last (gRaw (fst (pushSample (initialState\<lparr> t := [2], gRaw := [128], bvp := [0] \<rparr>)
                                 initialDisplay 2 130 30))) = 130
   \<and> length (bvp (fst (pushSample (initialState\<lparr> t := [2], gRaw := [128], bvp := [0] \<rparr>)
                                   initialDisplay 2 130 30))) = 2"
proof -
  define s where "s = initialState\<lparr> t := [2], gRaw := [128], bvp := [0] \<rparr>"
  have f: "t s = [2]" "gRaw s = [128]" "bvp s = [0]" "maxBufSec s = 60"
    by (simp_all add: s_def initial_fields)
  note th = pushSample_accepts_every_tick [of s initialDisplay 2 130 30]
  have a: "last (t (fst (pushSample s initialDisplay 2 130 30))) = 2"
    using th by (simp add: f)
  have b: "last (gRaw (fst (pushSample s initialDisplay 2 130 30))) = 130"
    using th by (simp add: f)
  have c: "length (bvp (fst (pushSample s initialDisplay 2 130 30))) = 2"
    using th by (simp add: f)
  from a b c show ?thesis unfolding s_def by (simp add: initial_fields)
qed

subsection \<open>The buffer invariant along a run\<close>

lemma sorted_dropWhile: "sorted_wrt P xs \<Longrightarrow> sorted_wrt P (dropWhile Q xs)"
  by (induction xs) auto

lemma loop_span:
  "t (fst (loop st v now gMean)) \<noteq> [] \<Longrightarrow>
   last (t (fst (loop st v now gMean))) - hd (t (fst (loop st v now gMean))) \<le> maxBufSec st"
  unfolding loop_t using dropWhile_span [of "t st @ [now / 1000]" "maxBufSec st"] by simp

lemma loop_upper:
  assumes "\<forall>x\<in>set (t st). x < now / 1000"
  shows "\<forall>x\<in>set (t (fst (loop st v now gMean))). x \<le> now / 1000"
proof
  fix x assume "x \<in> set (t (fst (loop st v now gMean)))"
  then have "x \<in> set (t st @ [now / 1000])"
    unfolding loop_t by (rule set_dropWhileD)
  then have "x \<in> set (t st) \<or> x = now / 1000" by auto
  then show "x \<le> now / 1000" using assms by (auto intro: less_imp_le)
qed

lemma loop_sorted:
  "sorted_wrt (<) (t st) \<Longrightarrow> \<forall>x\<in>set (t st). x < now / 1000 \<Longrightarrow>
   sorted_wrt (<) (t (fst (loop st v now gMean)))"
  unfolding loop_t by (intro sorted_dropWhile) (simp add: sorted_wrt_append)

lemma runTicks_invariant:
  "sorted_wrt (<) (map fst ticks) \<Longrightarrow> bufferInvariant st \<Longrightarrow>
   \<forall>x\<in>set (t st). \<forall>k\<in>set ticks. x < fst k / 1000 \<Longrightarrow>
   bufferInvariant (fst (runTicks st v ticks))"
proof (induction ticks arbitrary: st v)
  case Nil
  then show ?case by simp
next
  case (Cons k ticks)
  obtain now gMean where k: "k = (now, gMean)" by (cases k)
  obtain st' v' where l: "loop st v now gMean = (st', v')" by (cases "loop st v now gMean")
  have st': "st' = fst (loop st v now gMean)" by (simp add: l)
  have below: "\<forall>x\<in>set (t st). x < now / 1000" using Cons.prems(3) by (simp add: k)
  have "sorted_wrt (<) (t st')"
    unfolding st' using Cons.prems(2) below
    by (intro loop_sorted) (simp_all add: bufferInvariant_def)
  moreover have "t st' \<noteq> [] \<longrightarrow> last (t st') - hd (t st') \<le> maxBufSec st'"
    unfolding st' using loop_span [of st v now gMean] by (simp add: loop_maxBufSec)
  ultimately have inv: "bufferInvariant st'" by (simp add: bufferInvariant_def)
  have "\<forall>x\<in>set (t st'). \<forall>k'\<in>set ticks. x < fst k' / 1000"
  proof (intro ballI)
    fix x k' assume x: "x \<in> set (t st')" and k': "k' \<in> set ticks"
    have "x \<le> now / 1000" using loop_upper [OF below, of v gMean] x by (simp add: st')
    moreover have "now < fst k'" using Cons.prems(1) k' by (auto simp: k)
    ultimately show "x < fst k' / 1000" by simp
  qed
  moreover have "sorted_wrt (<) (map fst ticks)" using Cons.prems(1) by simp
  ultimately have "bufferInvariant (fst (runTicks st' v' ticks))"
    using inv by (intro Cons.IH)
  then show ?case by (simp add: k l)
qed

lemma runTicks_span:
  "t (fst (runTicks st v ticks)) \<noteq> [] \<Longrightarrow> ticks \<noteq> [] \<Longrightarrow>
   last (t (fst (runTicks st v ticks))) - hd (t (fst (runTicks st v ticks))) \<le> maxBufSec st"
proof (induction ticks arbitrary: st v)
  case Nil
  then show ?case by simp
next
  case (Cons k ticks)
  obtain now gMean where k: "k = (now, gMean)" by (cases k)
  obtain st' v' where l: "loop st v now gMean = (st', v')" by (cases "loop st v now gMean")
  have st': "st' = fst (loop st v now gMean)" by (simp add: l)
  show ?case
  proof (cases "ticks = []")
    case True
    then show ?thesis using Cons.prems loop_span [of st v now gMean] by (simp add: k l)
  next
    case False
    have "maxBufSec st' = maxBufSec st" unfolding st' by (rule loop_maxBufSec)
    with False show ?thesis using Cons.prems Cons.IH [of st' v'] by (simp add: k l)
  qed
qed

lemma repeated_timestamp_buffer:
  "t (fst (runTicks initialState initialDisplay [(1000, 128), (1000, 129)])) = [1, 1]"
  by (simp add: split_def loop_t loop_maxBufSec initial_fields)

text \<open>
  C3, as stated: after every sequence of ticks the timestamps are strictly increasing
  and span at most \<open>maxBufSec\<close>. Two frames with the same \<open>performance.now()\<close> are both
  stored, and the buffer is \<open>[1, 1]\<close>.
\<close>

theorem buffer_invariant_fails_on_repeated_timestamp:
  "\<not> bufferInvariant (fst (runTicks initialState initialDisplay [(1000, 128), (1000, 129)]))"
  unfolding bufferInvariant_def repeated_timestamp_buffer by simp

text \<open>
  C3, amended: after every sequence of ticks whose times are strictly increasing the
  buffer invariant holds (strictly increasing timestamps, also in the form
  \<open>t[i] < t[i+1]\<close>, and a span of at most \<open>maxBufSec\<close>); and after every sequence of
  ticks, increasing or not, the span of a non-empty buffer is at most \<open>maxBufSec\<close>,
  which is 60.
\<close>

theorem buffer_invariant_increasing:
  "(sorted_wrt (<) (map fst ticks) \<longrightarrow>
      bufferInvariant (fst (runTicks initialState v ticks))
      \<and> (\<forall>i. Suc i < length (t (fst (runTicks initialState v ticks))) \<longrightarrow>
             t (fst (runTicks initialState v ticks)) ! i
             < t (fst (runTicks initialState v ticks)) ! Suc i))
   \<and> (t (fst (runTicks initialState v ticks)) \<noteq> [] \<longrightarrow>
        last (t (fst (runTicks initialState v ticks)))
        - hd (t (fst (runTicks initialState v ticks))) \<le> 60)"
proof (intro conjI impI)
  assume "sorted_wrt (<) (map fst ticks)"
  then show inv: "bufferInvariant (fst (runTicks initialState v ticks))"
    by (intro runTicks_invariant) (simp_all add: bufferInvariant_def initial_fields)
  then show "\<forall>i. Suc i < length (t (fst (runTicks initialState v ticks))) \<longrightarrow>
             t (fst (runTicks initialState v ticks)) ! i
             < t (fst (runTicks initialState v ticks)) ! Suc i"
    by (simp add: bufferInvariant_def sorted_wrt_iff_nth_less)
next
  assume ne: "t (fst (runTicks initialState v ticks)) \<noteq> []"
  then have "ticks \<noteq> []" by (auto simp: initial_fields)
  with ne show "last (t (fst (runTicks initialState v ticks)))
        - hd (t (fst (runTicks initialState v ticks))) \<le> 60"
    using runTicks_span [of initialState v ticks] by (simp add: initial_fields)
qed

lemma two_ticks_buffer:
  "t (fst (runTicks initialState initialDisplay [(1000, 128), (1033, 129)])) = [1, 1.033]"
  by (simp add: split_def loop_t loop_maxBufSec initial_fields)

theorem buffer_invariant_increasing_witness:
  "sorted_wrt (<) (map fst [(1000, 128), (1033, 129::real)] :: real list)
   \<and> t (fst (runTicks initialState initialDisplay [(1000, 128), (1033, 129)])) \<noteq> []
   \<and> bufferInvariant (fst (runTicks initialState initialDisplay [(1000, 128), (1033, 129)]))"
proof -
  have s: "sorted_wrt (<) (map fst [(1000, 128), (1033, 129::real)] :: real list)" by simp
  have n: "t (fst (runTicks initialState initialDisplay [(1000, 128), (1033, 129)])) \<noteq> []"
    unfolding two_ticks_buffer by simp
  from s n show ?thesis
    using buffer_invariant_increasing [of "[(1000, 128), (1033, 129)]" initialDisplay]
    by blast
qed

subsection \<open>Filter history\<close>

lemma step_fresh:
  "step (biquad fs fc Q ty) x =
     (bz0 (biquad fs fc Q ty) * x,
      (biquad fs fc Q ty)\<lparr> x2 := 0, x1 := x, y2 := 0, y1 := bz0 (biquad fs fc Q ty) * x \<rparr>)"
  by (simp add: step_def biquad_def Let_def split_def)

lemma loop_bvp:
  "bvp (fst (loop st v now gMean))
   = drop (length (takeWhile (\<lambda>x. x < now / 1000 - maxBufSec st) (t st @ [now / 1000])))
       (bvp st @ [bz0 (makeBiquadLP (snd (loopClock st now)) 3.0)
                  * (bz0 (makeBiquadHP (snd (loopClock st now)) 0.7)
                     * (gMean - movingAverageTail (gRaw st @ [gMean])
                                  (nat (max 5 \<lfloor>snd (loopClock st now)\<rfloor>))))])"
proof -
  have "hp (loopState st now) = makeBiquadHP (snd (loopClock st now)) 0.7"
    "lp (loopState st now) = makeBiquadLP (snd (loopClock st now)) 3.0"
    by (simp_all add: loopState_def)
  then show ?thesis
    by (simp add: loop_pushSample pushSample_buffers appendSample_bvp loopState_fields
        makeBiquadHP_def makeBiquadLP_def step_fresh)
qed

lemma trimBuffers_hp: "hp (trimBuffers st) = hp st"
  by (simp add: trimBuffers_def Let_def split_def)

lemma appendSample_hp:
  "hp (appendSample st tSec gMean fs)
   = snd (step (hp st) (gMean - movingAverageTail (gRaw st @ [gMean]) (nat (max 5 \<lfloor>fs\<rfloor>))))"
  by (simp add: appendSample_def Let_def split_def trimBuffers_hp)

lemma detectPeakAndIBI_hp: "hp (snd (detectPeakAndIBI st fs)) = hp st"
  by (simp add: detectPeakAndIBI_isPeak)

lemma ibiUpdate_hp: "hp (fst (ibiUpdate st v0 v fs)) = hp st"
  by (simp add: ibiUpdate_def Let_def split_def detectPeakAndIBI_hp split: option.splits)

lemma loopClock_range: "10 \<le> snd (loopClock st now) \<and> snd (loopClock st now) \<le> 90"
  by (simp add: loopClock_def Let_def)

lemma loop_hp:
  "hp (fst (loop st v now gMean))
   = snd (step (makeBiquadHP (snd (loopClock st now)) 0.7)
       (gMean - movingAverageTail (gRaw st @ [gMean])
                  (nat (max 5 \<lfloor>snd (loopClock st now)\<rfloor>))))"
proof -
  have "hp (loopState st now) = makeBiquadHP (snd (loopClock st now)) 0.7"
    by (simp add: loopState_def)
  then show ?thesis
    by (simp add: loop_pushSample pushSample_def Let_def ibiUpdate_hp appendSample_hp
        loopState_fields)
qed

text \<open>Up to five raw values the detrending window is the whole buffer.\<close>

lemma movingAverageTail_short:
  "arr \<noteq> [] \<Longrightarrow> length arr \<le> 5 \<Longrightarrow>
   movingAverageTail arr (nat (max 5 z)) = sum_list arr / real (length arr)"
proof -
  assume ne: "arr \<noteq> []" and le: "length arr \<le> 5"
  have "5 \<le> nat (max 5 z)" by simp
  with le have "min (nat (max 5 z)) (length arr) = length arr" by linarith
  with ne show ?thesis
    by (simp add: movingAverageTail_def Let_def foldl_plus_sum_list)
qed

text \<open>
  The high-pass coefficients at a rate between 10 and 90: the angle is below a right
  angle, so the cosine is positive and \<open>a0\<close> exceeds 1.
\<close>

lemma hp_angle:
  assumes "10 \<le> fs" "fs \<le> 90"
  shows "0 < 2 * pi * 0.7 / fs" "2 * pi * 0.7 / fs < pi / 2"
proof -
  have fs: "0 < fs" using assms by simp
  show "0 < 2 * pi * 0.7 / fs" using fs by simp
  have "2 * pi * 0.7 / fs \<le> 2 * pi * 0.7 / 10"
    using assms by (intro divide_left_mono) simp_all
  also have "\<dots> < pi / 2" by simp
  finally show "2 * pi * 0.7 / fs < pi / 2" .
qed

lemma hp_coefficients:
  assumes "10 \<le> fs" "fs \<le> 90"
  defines "c \<equiv> cos (2 * pi * 0.7 / fs)"
    and "a0 \<equiv> 1 + sin (2 * pi * 0.7 / fs) / (2 * sqrt (1 / 2))"
  shows "0 < c" "c \<le> 1" "1 < a0"
    "bz0 (makeBiquadHP fs 0.7) = ((1 + c) / 2) / a0"
    "bz1 (makeBiquadHP fs 0.7) = (- (1 + c)) / a0"
    "az1 (makeBiquadHP fs 0.7) = (- 2 * c) / a0"
proof -
  note ang = hp_angle [OF assms(1,2)]
  show "0 < c" unfolding c_def using ang by (intro cos_gt_zero) simp_all
  show "c \<le> 1" unfolding c_def by simp
  have "0 < sin (2 * pi * 0.7 / fs)"
    using ang pi_gt_zero by (intro sin_gt_zero) linarith+
  then have "0 < sin (2 * pi * 0.7 / fs) / (2 * sqrt (1 / 2))"
    by (intro divide_pos_pos) simp_all
  then show "1 < a0" unfolding a0_def by simp
  show "bz0 (makeBiquadHP fs 0.7) = ((1 + c) / 2) / a0"
    "bz1 (makeBiquadHP fs 0.7) = (- (1 + c)) / a0"
    "az1 (makeBiquadHP fs 0.7) = (- 2 * c) / a0"
    unfolding c_def a0_def by (simp_all add: makeBiquadHP_def biquad_def Let_def)
qed

text \<open>
  After one step on the input 1/2 from a zero history, the high-pass stage with its
  history kept gives less than the stage made anew, on every input.
\<close>

lemma hp_history_matters:
  assumes "10 \<le> fs" "fs \<le> 90" "10 \<le> fs'" "fs' \<le> 90"
  shows "fst (step (rederived (makeBiquadHP fs 0.7)
                      (snd (step (makeBiquadHP fs' 0.7) (1 / 2)))) x)
         < fst (step (makeBiquadHP fs 0.7) x)"
proof -
  define c where "c = cos (2 * pi * 0.7 / fs)"
  define a0 where "a0 = 1 + sin (2 * pi * 0.7 / fs) / (2 * sqrt (1 / 2))"
  define c' where "c' = cos (2 * pi * 0.7 / fs')"
  define a0' where "a0' = 1 + sin (2 * pi * 0.7 / fs') / (2 * sqrt (1 / 2))"
  note F = hp_coefficients [OF assms(1,2), folded c_def a0_def]
  note G = hp_coefficients [OF assms(3,4), folded c'_def a0'_def]
  have pos: "0 < c * (1 + c')" using F(1) G(1) by simp
  have "c * (1 + c') / a0' < c * (1 + c') / 1"
    using pos G(3) by (intro divide_strict_left_mono) simp_all
  then have "c * (1 + c') / a0' < c * (1 + c')" by simp
  also have "\<dots> \<le> c * 2" using F(1) G(2) by simp
  also have "\<dots> \<le> 1 + c" using F(2) by simp
  finally have n: "c * (1 + c') / a0' - (1 + c) < 0" by simp
  have a0: "0 < a0" "0 < a0'" using F(3) G(3) by simp_all
  have "bz1 (makeBiquadHP fs 0.7) * (1 / 2)
        - az1 (makeBiquadHP fs 0.7) * (bz0 (makeBiquadHP fs' 0.7) * (1 / 2))
        = (c * (1 + c') / a0' - (1 + c)) / (2 * a0)"
    unfolding F G using a0 by (simp add: field_simps)
  also have "\<dots> < 0" using n a0(1) by (simp add: divide_neg_pos)
  finally have d: "bz1 (makeBiquadHP fs 0.7) * (1 / 2)
        - az1 (makeBiquadHP fs 0.7) * (bz0 (makeBiquadHP fs' 0.7) * (1 / 2)) < 0" .
  have "fst (step (rederived (makeBiquadHP fs 0.7)
                     (snd (step (makeBiquadHP fs' 0.7) (1 / 2)))) x)
        = fst (step (makeBiquadHP fs 0.7) x)
          + (bz1 (makeBiquadHP fs 0.7) * (1 / 2)
             - az1 (makeBiquadHP fs 0.7) * (bz0 (makeBiquadHP fs' 0.7) * (1 / 2)))"
    by (simp add: rederived_def makeBiquadHP_def step_fresh) (simp add: step_def Let_def)
  with d show ?thesis by simp
qed

text \<open>The frames at 1000, 1033 and 1066 ms with the brightness 128, 129 and 128.\<close>

lemma two_ticks_raw:
  "gRaw (fst (runTicks initialState initialDisplay [(1000, 128), (1033, 129)])) = [128, 129]"
  "gRaw (fst (runTicks initialState initialDisplay [(1000, 128)])) = [128]"
  by (simp_all add: split_def loop_t loop_gRaw loop_maxBufSec initial_fields)

lemma second_tick_hp:
  "hp (fst (runTicks initialState initialDisplay [(1000, 128), (1033, 129)]))
   = snd (step (makeBiquadHP
            (snd (loopClock (fst (runTicks initialState initialDisplay [(1000, 128)])) 1033))
            0.7)
          (1 / 2))"
proof -
  have run: "runTicks initialState initialDisplay [(1000, 128), (1033, 129)]
        = loop (fst (runTicks initialState initialDisplay [(1000, 128)]))
               (snd (runTicks initialState initialDisplay [(1000, 128)])) 1033 129"
    using runTicks_snoc [of initialState initialDisplay "[(1000, 128)]" 1033 129] by simp
  have avg: "129 - movingAverageTail
               (gRaw (fst (runTicks initialState initialDisplay [(1000, 128)])) @ [129])
               (nat (max 5 z)) = 1 / 2" for z
    unfolding two_ticks_raw by (simp add: movingAverageTail_short)
  show ?thesis unfolding run loop_hp avg ..
qed

lemma second_tick_history:
  "x1 (hp (fst (runTicks initialState initialDisplay [(1000, 128), (1033, 129)]))) = 1 / 2"
  unfolding second_tick_hp by (simp add: step_def Let_def)

lemma third_tick_history_matters:
  "fst (step (rederived
          (makeBiquadHP (snd (loopClock
             (fst (runTicks initialState initialDisplay [(1000, 128), (1033, 129)])) 1066)) 0.7)
          (hp (fst (runTicks initialState initialDisplay [(1000, 128), (1033, 129)]))))
        (- (1 / 3)))
   < fst (step
          (makeBiquadHP (snd (loopClock
             (fst (runTicks initialState initialDisplay [(1000, 128), (1033, 129)])) 1066)) 0.7)
        (- (1 / 3)))"
  unfolding second_tick_hp
  using loopClock_range by (intro hp_history_matters) simp_all

lemma third_tick_sample:
  "bvp (fst (runTicks initialState initialDisplay [(1000, 128), (1033, 129), (1066, 128)]))
   = bvp (fst (runTicks initialState initialDisplay [(1000, 128), (1033, 129)]))
     @ [bz0 (makeBiquadLP (snd (loopClock
            (fst (runTicks initialState initialDisplay [(1000, 128), (1033, 129)])) 1066)) 3.0)
        * (bz0 (makeBiquadHP (snd (loopClock
            (fst (runTicks initialState initialDisplay [(1000, 128), (1033, 129)])) 1066)) 0.7)
           * (- (1 / 3)))]"
proof -
  let ?st = "fst (runTicks initialState initialDisplay [(1000, 128), (1033, 129)])"
  have run: "runTicks initialState initialDisplay [(1000, 128), (1033, 129), (1066, 128)]
        = loop ?st (snd (runTicks initialState initialDisplay [(1000, 128), (1033, 129)]))
            1066 128"
    using runTicks_snoc [of initialState initialDisplay "[(1000, 128), (1033, 129)]" 1066 128]
    by simp
  have ts: "t ?st = [1, 1.033]" by (rule two_ticks_buffer)
  have mb: "maxBufSec ?st = 60"
    unfolding runTicks_maxBufSec by (simp add: initial_fields)
  have k: "length (takeWhile (\<lambda>x. x < 1066 / 1000 - maxBufSec ?st) (t ?st @ [1066 / 1000]))
           = 0"
    unfolding ts mb by simp
  have avg: "128 - movingAverageTail (gRaw ?st @ [128]) (nat (max 5 z)) = - (1 / 3)" for z
    unfolding two_ticks_raw by (simp add: movingAverageTail_short)
  show ?thesis
    unfolding run loop_bvp k avg by simp
qed

text \<open>
  C1, on the code: \<open>loop\<close> replaces both filters by the objects that \<open>makeBiquadHP\<close> and
  \<open>makeBiquadLP\<close> return, whose history variables are 0. So a tick gives the same
  result whatever the filters of the state were; the output of each stage is its
  coefficient \<open>bz0\<close> times its input; and the filtered sample that the tick appends is
  the detrended brightness times the two coefficients. The history of the previous tick
  is not used. It shows at the third of the frames (1000 ms, 128), (1033 ms, 129),
  (1066 ms, 128): the second frame leaves the input history 1/2 in the high-pass stage,
  the third has the detrended input -1/3, its filtered sample is the two coefficients
  times -1/3, and the high-pass stage with the history kept would give less than the
  stage made anew gives.
\<close>

theorem loop_discards_filter_history:
  "loop (st\<lparr> hp := h, lp := l \<rparr>) v now gMean = loop st v now gMean
   \<and> x1 (makeBiquadHP fs fc) = 0 \<and> x2 (makeBiquadHP fs fc) = 0
   \<and> y1 (makeBiquadHP fs fc) = 0 \<and> y2 (makeBiquadHP fs fc) = 0
   \<and> x1 (makeBiquadLP fs fc) = 0 \<and> x2 (makeBiquadLP fs fc) = 0
   \<and> y1 (makeBiquadLP fs fc) = 0 \<and> y2 (makeBiquadLP fs fc) = 0
   \<and> fst (step (makeBiquadHP fs fc) x) = bz0 (makeBiquadHP fs fc) * x
   \<and> fst (step (makeBiquadLP fs fc) x) = bz0 (makeBiquadLP fs fc) * x
   \<and> bvp (fst (loop st v now gMean))
     = drop (length (takeWhile (\<lambda>x. x < now / 1000 - maxBufSec st) (t st @ [now / 1000])))
         (bvp st @ [bz0 (makeBiquadLP (snd (loopClock st now)) 3.0)
                    * (bz0 (makeBiquadHP (snd (loopClock st now)) 0.7)
                       * (gMean - movingAverageTail (gRaw st @ [gMean])
                                    (nat (max 5 \<lfloor>snd (loopClock st now)\<rfloor>))))])
   \<and> x1 (hp (fst (runTicks initialState initialDisplay [(1000, 128), (1033, 129)]))) = 1 / 2
   \<and> bvp (fst (runTicks initialState initialDisplay
                   [(1000, 128), (1033, 129), (1066, 128)]))
     = bvp (fst (runTicks initialState initialDisplay [(1000, 128), (1033, 129)]))
       @ [bz0 (makeBiquadLP (snd (loopClock
              (fst (runTicks initialState initialDisplay [(1000, 128), (1033, 129)])) 1066))
            3.0)
          * (bz0 (makeBiquadHP (snd (loopClock
              (fst (runTicks initialState initialDisplay [(1000, 128), (1033, 129)])) 1066))
              0.7)
             * (- (1 / 3)))]
   \<and> fst (step (rederived
            (makeBiquadHP (snd (loopClock
               (fst (runTicks initialState initialDisplay [(1000, 128), (1033, 129)])) 1066))
               0.7)
            (hp (fst (runTicks initialState initialDisplay [(1000, 128), (1033, 129)]))))
          (- (1 / 3)))
     < fst (step
            (makeBiquadHP (snd (loopClock
               (fst (runTicks initialState initialDisplay [(1000, 128), (1033, 129)])) 1066))
               0.7)
          (- (1 / 3)))"
proof -
  have "loop (st\<lparr> hp := h, lp := l \<rparr>) v now gMean = loop st v now gMean"
    by (simp add: loop_def loopClock_def Let_def)
  moreover have "x1 (biquad fs fc Q ty) = 0" "x2 (biquad fs fc Q ty) = 0"
    "y1 (biquad fs fc Q ty) = 0" "y2 (biquad fs fc Q ty) = 0" for Q ty
    by (simp_all add: biquad_def Let_def split_def)
  ultimately have general:
    "loop (st\<lparr> hp := h, lp := l \<rparr>) v now gMean = loop st v now gMean
     \<and> x1 (makeBiquadHP fs fc) = 0 \<and> x2 (makeBiquadHP fs fc) = 0
     \<and> y1 (makeBiquadHP fs fc) = 0 \<and> y2 (makeBiquadHP fs fc) = 0
     \<and> x1 (makeBiquadLP fs fc) = 0 \<and> x2 (makeBiquadLP fs fc) = 0
     \<and> y1 (makeBiquadLP fs fc) = 0 \<and> y2 (makeBiquadLP fs fc) = 0
     \<and> fst (step (makeBiquadHP fs fc) x) = bz0 (makeBiquadHP fs fc) * x
     \<and> fst (step (makeBiquadLP fs fc) x) = bz0 (makeBiquadLP fs fc) * x"
    by (simp add: makeBiquadHP_def makeBiquadLP_def step_fresh)
  from general loop_bvp [of st v now gMean] second_tick_history third_tick_sample
    third_tick_history_matters
  show ?thesis by (intro conjI) (simp_all only:)
qed

subsection \<open>Refractory period\<close>

lemma peakExample_isPeak: "isPeak (peakExample tp lastPeak) 30"
  by (simp add: isPeak_def peakExample_def initial_fields Let_def)

lemma peakExample_fields:
  "peakTime (peakExample tp lastPeak) = tp" "lastPeakT (peakExample tp lastPeak) = lastPeak"
  by (simp_all add: peakTime_def peakExample_def)

text \<open>
  C5, as stated: two peaks closer than 0.333 s apart yield at most one interval, a
  peak being discarded unless at least 0.333 s have passed since the last accepted
  peak. With the last accepted peak at 0.5 s, the peak at 1.0 s is accepted with the
  interval 0.5 s; the peak at 1.332 s, 0.332 s after it, is accepted too: the interval
  0.332 s is emitted and the last-peak timestamp is updated.
\<close>

theorem peak_accepted_inside_333ms:
  "(1.332::real) - 1.0 < 0.333
   \<and> detectPeakAndIBI (peakExample 1.0 0.5) 30
     = (Some 0.5, (peakExample 1.0 0.5)\<lparr> lastPeakT := 1.0 \<rparr>)
   \<and> lastPeakT (peakExample 1.332 1.0) = 1.0
   \<and> fst (detectPeakAndIBI (peakExample 1.332 1.0) 30) = Some 0.332
   \<and> lastPeakT (snd (detectPeakAndIBI (peakExample 1.332 1.0) 30)) = 1.332"
  by (simp add: detectPeakAndIBI_isPeak peakExample_isPeak peakExample_fields)

text \<open>
  C5, amended: a sample that passes the peak test is discarded, with no interval and
  the state unchanged, when the last-peak timestamp is not negative and at most 0.33 s
  have passed since; it is accepted when the last-peak timestamp is negative (no peak
  yet) or more than 0.33 s have passed: its timestamp becomes the last-peak timestamp,
  and the interval to the previous last-peak timestamp is emitted if that was
  positive. So of two peaks at most 0.33 s apart, the second following the first
  without an accepted peak between them, at most one yields an interval.
\<close>

theorem refractory_rule:
  assumes "isPeak st fs"
  shows "(0 \<le> lastPeakT st \<and> peakTime st - lastPeakT st \<le> 0.33 \<longrightarrow>
            detectPeakAndIBI st fs = (None, st))
       \<and> (lastPeakT st < 0 \<or> 0.33 < peakTime st - lastPeakT st \<longrightarrow>
            detectPeakAndIBI st fs
            = ((if 0 < lastPeakT st then Some (peakTime st - lastPeakT st) else None),
               st\<lparr> lastPeakT := peakTime st \<rparr>))
       \<and> (isPeak st' fs' \<and> lastPeakT st' = lastPeakT (snd (detectPeakAndIBI st fs))
            \<and> peakTime st' - peakTime st \<le> 0.33 \<longrightarrow>
            fst (detectPeakAndIBI st fs) = None \<or> fst (detectPeakAndIBI st' fs') = None)"
proof (intro conjI impI)
  assume "0 \<le> lastPeakT st \<and> peakTime st - lastPeakT st \<le> 0.33"
  then show "detectPeakAndIBI st fs = (None, st)"
    using assms by (simp add: detectPeakAndIBI_isPeak)
next
  assume "lastPeakT st < 0 \<or> 0.33 < peakTime st - lastPeakT st"
  then show "detectPeakAndIBI st fs
            = ((if 0 < lastPeakT st then Some (peakTime st - lastPeakT st) else None),
               st\<lparr> lastPeakT := peakTime st \<rparr>)"
    using assms by (simp add: detectPeakAndIBI_isPeak)
next
  assume a: "isPeak st' fs' \<and> lastPeakT st' = lastPeakT (snd (detectPeakAndIBI st fs))
            \<and> peakTime st' - peakTime st \<le> 0.33"
  show "fst (detectPeakAndIBI st fs) = None \<or> fst (detectPeakAndIBI st' fs') = None"
  proof (cases "fst (detectPeakAndIBI st fs)")
    case None
    then show ?thesis by simp
  next
    case (Some ibi)
    then have acc: "0 < lastPeakT st" "0.33 < peakTime st - lastPeakT st"
      using assms by (auto simp: detectPeakAndIBI_isPeak split: if_splits)
    then have "lastPeakT (snd (detectPeakAndIBI st fs)) = peakTime st"
      using assms by (simp add: detectPeakAndIBI_isPeak)
    with a acc have "0 \<le> lastPeakT st'" "peakTime st' - lastPeakT st' \<le> 0.33" by simp_all
    then have "fst (detectPeakAndIBI st' fs') = None"
      using a by (simp add: detectPeakAndIBI_isPeak)
    then show ?thesis by simp
  qed
qed

text \<open>
  With the last accepted peak at 1.0 s: a peak at 1.3 s is discarded, a peak at 1.5 s
  is accepted with the interval 0.5 s, and the peak at 1.7 s that follows it is
  discarded.
\<close>

theorem refractory_rule_witness:
  "isPeak (peakExample 1.3 1.0) 30
   \<and> detectPeakAndIBI (peakExample 1.3 1.0) 30 = (None, peakExample 1.3 1.0)
   \<and> isPeak (peakExample 1.5 1.0) 30
   \<and> detectPeakAndIBI (peakExample 1.5 1.0) 30
     = (Some 0.5, (peakExample 1.5 1.0)\<lparr> lastPeakT := 1.5 \<rparr>)
   \<and> isPeak (peakExample 1.7 1.5) 30
   \<and> fst (detectPeakAndIBI (peakExample 1.7 1.5) 30) = None"
proof -
  note first = refractory_rule [OF peakExample_isPeak, of "1.3" "1.0" "peakExample 1.7 1.5" 30]
  note second = refractory_rule [OF peakExample_isPeak, of "1.5" "1.0" "peakExample 1.7 1.5" 30]
  have a: "detectPeakAndIBI (peakExample 1.3 1.0) 30 = (None, peakExample 1.3 1.0)"
    using first by (simp add: peakExample_fields)
  have b: "detectPeakAndIBI (peakExample 1.5 1.0) 30
           = (Some 0.5, (peakExample 1.5 1.0)\<lparr> lastPeakT := 1.5 \<rparr>)"
    using second by (simp add: peakExample_fields)
  have "fst (detectPeakAndIBI (peakExample 1.5 1.0) 30) = None
        \<or> fst (detectPeakAndIBI (peakExample 1.7 1.5) 30) = None"
    using second unfolding b by (simp add: peakExample_isPeak peakExample_fields)
  then have c: "fst (detectPeakAndIBI (peakExample 1.7 1.5) 30) = None"
    unfolding b by simp
  from a b c show ?thesis by (simp only: peakExample_isPeak simp_thms)
qed

subsection \<open>A skipped spectral estimate\<close>

lemma spectralUpdate_skip: "\<not> segmentSufficient st \<Longrightarrow> spectralUpdate st v = v"
  by (simp add: spectralUpdate_def segmentSufficient_def split_def Let_def)

lemma spectralUpdate_run: "segmentSufficient st \<Longrightarrow> hrBpm (spectralUpdate st v) \<noteq> None"
  by (simp add: spectralUpdate_def segmentSufficient_def split_def Let_def)

lemma getLatestSegment_length: "length (fst (getLatestSegment sig ts w)) \<le> length sig"
  by (simp add: getLatestSegment_def Let_def)

lemma getLatestSegment_fs: "10 \<le> snd (getLatestSegment sig ts w)"
  by (simp add: getLatestSegment_def Let_def)

lemma short_buffer_insufficient:
  assumes "length (bvp st) \<le> 40"
  shows "\<not> segmentSufficient st"
proof -
  have "real (length (fst (getLatestSegment (bvp st) (t st) 12))) \<le> 40"
    using getLatestSegment_length [of "bvp st" "t st" 12] assms by simp
  moreover have "40 \<le> snd (getLatestSegment (bvp st) (t st) 12) * 4"
    using getLatestSegment_fs [of "bvp st" "t st" 12] by simp
  ultimately show ?thesis by (simp add: segmentSufficient_def split_def)
qed

lemma loop_hrBpm_set:
  "segmentSufficient (fst (loop st v now gMean)) \<Longrightarrow> hrBpm (snd (loop st v now gMean)) \<noteq> None"
  unfolding loop_pushSample pushSample_display
  by (rule spectralUpdate_run) (simp add: segmentSufficient_def pushSample_buffers)

lemma loop_hrBpm_keep:
  "\<not> segmentSufficient (fst (loop st v now gMean)) \<Longrightarrow>
   hrBpm (snd (loop st v now gMean)) = hrBpm v"
  unfolding loop_pushSample pushSample_display
  by (subst spectralUpdate_skip) (simp_all add: segmentSufficient_def pushSample_buffers)

lemma scanBack_none: "\<forall>i<n. \<not> ts ! i < c \<Longrightarrow> scanBack ts c n = 0"
  by (induction n) simp_all

text \<open>When no timestamp is older than 12 s, the segment is the whole buffer.\<close>

lemma segmentSufficient_whole:
  assumes "length (bvp st) = length (t st)" "t st \<noteq> []"
    and "\<forall>i<length (t st). \<not> t st ! i < last (t st) - 12"
  shows "segmentSufficient st \<longleftrightarrow>
     real (length (t st)) >
       (let dt = (last (t st) - hd (t st)) / max 1 (real (length (t st) - 1))
        in if dt > 0 then min 90 (max 10 (1 / dt)) else 30) * 4"
proof -
  have n0: "length (bvp st) \<noteq> 0" "length (t st) \<noteq> 0" "0 < length (t st)"
    using assms(1,2) by auto
  have sb: "scanBack (t st) (t st ! (length (t st) - 1) - 12) (length (t st)) = 0"
    using assms(2,3) by (intro scanBack_none) (simp add: last_conv_nth)
  have la: "last (t st) = t st ! (length (t st) - 1)" and hd: "hd (t st) = t st ! 0"
    using assms(2) by (simp_all add: last_conv_nth hd_conv_nth)
  have seg: "getLatestSegment (bvp st) (t st) 12 =
      (bvp st, (let dt = (t st ! (length (t st) - 1) - t st ! 0)
                         / max 1 (real (length (t st) - 1))
                in if dt > 0 then min 90 (max 10 (1 / dt)) else 30))"
    unfolding getLatestSegment_def Let_def sb using n0
    by (simp only: if_False drop_0 simp_thms if_True diff_zero)
  show ?thesis
    unfolding segmentSufficient_def seg la hd assms(1) [symmetric]
    by (simp only: Let_def split_conv)
qed

text \<open>The run of 41 frames at 10 Hz, and then a frame 195.9 s later.\<close>

lemma tenHz_times:
  "map (\<lambda>k. fst k / 1000) (tenHzTicks n) = map (\<lambda>i. real i / 10) [1..<Suc n]"
  by (simp add: tenHzTicks_def comp_def)

lemma tenHz_snoc: "tenHzTicks (Suc n) = tenHzTicks n @ [(100 * real (Suc n), 128)]"
  by (simp add: tenHzTicks_def)

lemma tenHz_t:
  assumes "n \<le> 600"
  shows "t (fst (runTicks initialState v (tenHzTicks n))) = map (\<lambda>i. real i / 10) [1..<Suc n]"
proof -
  have "\<forall>x\<in>set (t initialState @ map (\<lambda>k. fst k / 1000) (tenHzTicks n)).
          0 \<le> x \<and> x \<le> 0 + maxBufSec initialState"
    using assms by (auto simp: tenHz_times initial_fields)
  then have "t (fst (runTicks initialState v (tenHzTicks n)))
             = t initialState @ map (\<lambda>k. fst k / 1000) (tenHzTicks n)"
    by (rule runTicks_t_window)
  then show ?thesis by (simp add: tenHz_times initial_fields)
qed

lemma tenHz_lengths:
  "length (bvp (fst (runTicks initialState v (tenHzTicks n))))
   = length (t (fst (runTicks initialState v (tenHzTicks n))))"
  using runTicks_lengths [of initialState v "tenHzTicks n"] by (simp add: initial_fields)

lemma tenHz_sufficient: "segmentSufficient (fst (runTicks initialState v (tenHzTicks 41)))"
proof -
  let ?st = "fst (runTicks initialState v (tenHzTicks 41))"
  have ts: "t ?st = map (\<lambda>i. real i / 10) [1..<42]" using tenHz_t [of 41 v] by simp
  have len: "length (t ?st) = 41" by (simp add: ts)
  have ne: "t ?st \<noteq> []" using len by auto
  have la: "last (t ?st) = 41 / 10" using ne len by (simp add: last_conv_nth) (simp add: ts)
  have hd: "hd (t ?st) = 1 / 10" using ne by (simp add: hd_conv_nth) (simp add: ts)
  have all: "\<forall>i<length (t ?st). \<not> t ?st ! i < last (t ?st) - 12"
    unfolding la len by (simp add: ts)
  show ?thesis
    unfolding segmentSufficient_whole [OF tenHz_lengths ne all] la hd len
    by (simp add: Let_def)
qed

lemma tenHz_hrBpm: "hrBpm (snd (runTicks initialState v (tenHzTicks 41))) \<noteq> None"
proof -
  have "tenHzTicks 41 = tenHzTicks 40 @ [(4100, 128)]"
    using tenHz_snoc [of 40] by simp
  then have "runTicks initialState v (tenHzTicks 41)
        = loop (fst (runTicks initialState v (tenHzTicks 40)))
               (snd (runTicks initialState v (tenHzTicks 40))) 4100 128"
    by (simp only: runTicks_snoc)
  then show ?thesis using tenHz_sufficient [of v] loop_hrBpm_set by metis
qed

lemma paused_t:
  "t (fst (runTicks initialState v (tenHzTicks 41 @ [(200000, 128)]))) = [200]"
proof -
  have "dropWhile (\<lambda>x. x < 200000 / 1000 - 60)
          (map (\<lambda>i. real i / 10) [1..<42] @ [200000 / 1000])
        = dropWhile (\<lambda>x. x < 200000 / 1000 - 60) [200000 / 1000]"
    by (intro dropWhile_append2) auto
  then show ?thesis
    using tenHz_t [of 41 v]
    by (simp add: runTicks_snoc loop_t runTicks_maxBufSec initial_fields)
qed

text \<open>
  C6, as stated: when the segment has no more than \<open>4 * fsUsed\<close> samples, the heart
  rate of the tick is absent, never a stale value. After 41 frames at 10 Hz the heart
  rate is set; a frame 195.9 s later leaves one sample in the buffer, the estimator is
  skipped, and the heart rate is still the value of the frame before.
\<close>

theorem stale_heart_rate_after_pause:
  "\<not> segmentSufficient
        (fst (runTicks initialState initialDisplay (tenHzTicks 41 @ [(200000, 128)])))
   \<and> hrBpm (snd (runTicks initialState initialDisplay (tenHzTicks 41 @ [(200000, 128)])))
     = hrBpm (snd (runTicks initialState initialDisplay (tenHzTicks 41)))
   \<and> hrBpm (snd (runTicks initialState initialDisplay (tenHzTicks 41 @ [(200000, 128)])))
     \<noteq> None"
proof -
  let ?st = "fst (runTicks initialState initialDisplay (tenHzTicks 41))"
  let ?v = "snd (runTicks initialState initialDisplay (tenHzTicks 41))"
  have run: "runTicks initialState initialDisplay (tenHzTicks 41 @ [(200000, 128)])
             = loop ?st ?v 200000 128"
    by (rule runTicks_snoc)
  have "length (bvp (fst (runTicks initialState initialDisplay
                            (tenHzTicks 41 @ [(200000, 128)])))) = 1"
    using runTicks_lengths [of initialState initialDisplay "tenHzTicks 41 @ [(200000, 128)]"]
    by (simp add: initial_fields paused_t)
  then have short: "\<not> segmentSufficient (fst (loop ?st ?v 200000 128))"
    unfolding run by (intro short_buffer_insufficient) simp
  then have "hrBpm (snd (loop ?st ?v 200000 128)) = hrBpm ?v" by (rule loop_hrBpm_keep)
  with short show ?thesis unfolding run using tenHz_hrBpm [of initialDisplay] by simp
qed

text \<open>
  C6, amended: when the segment that \<open>pushSample\<close> extracts after appending and
  trimming has no more than \<open>4 * fsUsed\<close> samples, the spectral estimate is skipped:
  \<open>setHrBpm\<close> and \<open>setSnr\<close> are not called, and the heart rate and the quality ratio
  keep the values they had before the tick (\<open>null\<close> if never set, else the last
  estimate).
\<close>

theorem spectral_skip_keeps_values:
  assumes "\<not> segmentSufficient (appendSample st tSec gMean fs)"
  shows "spectralUpdate (appendSample st tSec gMean fs) v = v
       \<and> hrBpm (snd (pushSample st v tSec gMean fs)) = hrBpm v
       \<and> snr (snd (pushSample st v tSec gMean fs)) = snr v"
  using assms by (simp add: pushSample_display spectralUpdate_skip)

theorem spectral_skip_keeps_values_witness:
  "\<not> segmentSufficient (appendSample initialState 1 128 30)
   \<and> hrBpm (snd (pushSample initialState (initialDisplay\<lparr> hrBpm := Some 72 \<rparr>) 1 128 30))
     = Some 72"
proof -
  have "length (bvp (appendSample initialState 1 128 30)) \<le> 40"
    by (simp add: appendSample_bvp initial_fields)
  then have s: "\<not> segmentSufficient (appendSample initialState 1 128 30)"
    by (rule short_buffer_insufficient)
  then show ?thesis
    using spectral_skip_keeps_values [OF s, of "initialDisplay\<lparr> hrBpm := Some 72 \<rparr>"] by simp
qed

subsection \<open>Focus score\<close>










end
